theory Spec2Isabelle
  imports Complex_Main "HOL-Library.Sublist"
begin

section \<open>Data model of the game store\<close>

text \<open>
  The store of the game (\<open>useGameStore\<close>, the first document of
  \<open>src/unnamed/part_000\<close>) keeps a local snapshot of one room, its players and its
  chat log, and writes to a Firestore backend. The records below follow the
  TypeScript interfaces; a field name carries a short prefix where two interfaces
  share it. \<open>avatar\<close> and \<open>stats\<close> of a player and the timestamp of a message are
  never read by the operations modelled here and are left out; the order of the
  message list is the order of the timestamps.
\<close>

record Player =
  p_id :: string
  p_name :: string
  p_characterClass :: "string option"
  p_isReady :: bool
  p_choices :: "string list option"

datatype Role = User | Assistant | System

record MessageDoc =
  m_role :: Role
  m_content :: string
  m_senderName :: "string option"
  m_isAction :: "bool option"

record ChatMessage = MessageDoc +
  m_id :: string

record RollRequest =
  rr_playerId :: string
  rr_playerName :: string
  rr_diceType :: string
  rr_reason :: string

datatype GameStatus = Lobby | Playing

record GameRoom =
  r_id :: string
  r_hostId :: string
  r_gameStatus :: GameStatus
  r_activeRoll :: "RollRequest option"
  r_currentScene :: "string option"

text \<open>The local state of one process (\<open>GameState\<close>), without the fields of the user
  interface (\<open>user\<close>, \<open>isLoading\<close>, \<open>isAuthLoading\<close>, the unsubscribe handles).\<close>

record GameState =
  room :: "GameRoom option"
  players :: "Player list"
  chatHistory :: "ChatMessage list"
  playerId :: "string option"
  isAiThinking :: bool
  lastHandledMessageId :: "string option"

text \<open>
  The backend, for the room the process has joined: the room document, the
  collection of player documents (keyed by \<open>p_id\<close>) and the chat collection in
  timestamp order. An operation reads the local snapshot and writes to the backend;
  the two are separate arguments of every operation, since the snapshot may be older
  than the backend when the write arrives.
\<close>

record Store =
  db_room :: GameRoom
  db_players :: "Player list"
  db_messages :: "MessageDoc list"

datatype error = WriteRejected | NetworkError | NoJsonObject | UnrecoverableJson

section \<open>JavaScript primitives the store uses\<close>

text \<open>
  A string is the list of its code units, and the model holds the texts whose code
  units are below 256: a \<open>char\<close> is the code unit of that number. On these texts
  \<open>trim\<close>, \<open>parseInt\<close> and \<open>toLowerCase\<close> are the functions of the language: the
  white space below 256 is tab, line feed, vertical tab, form feed, carriage return,
  space and the no-break space \<open>U+00A0\<close>; the letters below 256 that \<open>toLowerCase\<close>
  changes are \<open>A\<close> to \<open>Z\<close> and \<open>U+00C0\<close> to \<open>U+00DE\<close> without the sign \<open>U+00D7\<close>,
  each moved up by 32.
\<close>

definition is_space :: "char \<Rightarrow> bool" where
  "is_space c =
     (c \<in> set [CHR '' '', CHR 0x09, CHR 0x0A, CHR 0x0B, CHR 0x0C, CHR 0x0D, CHR 0xA0])"

definition trim :: "string \<Rightarrow> string" where
  "trim s = rev (dropWhile is_space (rev (dropWhile is_space s)))"

definition upperLetters :: string where
  "upperLetters =
     ''ABCDEFGHIJKLMNOPQRSTUVWXYZ'' @
     [CHR 0xC0, CHR 0xC1, CHR 0xC2, CHR 0xC3, CHR 0xC4, CHR 0xC5, CHR 0xC6, CHR 0xC7,
      CHR 0xC8, CHR 0xC9, CHR 0xCA, CHR 0xCB, CHR 0xCC, CHR 0xCD, CHR 0xCE, CHR 0xCF,
      CHR 0xD0, CHR 0xD1, CHR 0xD2, CHR 0xD3, CHR 0xD4, CHR 0xD5, CHR 0xD6,
      CHR 0xD8, CHR 0xD9, CHR 0xDA, CHR 0xDB, CHR 0xDC, CHR 0xDD, CHR 0xDE]"

definition lowerLetters :: string where
  "lowerLetters =
     ''abcdefghijklmnopqrstuvwxyz'' @
     [CHR 0xE0, CHR 0xE1, CHR 0xE2, CHR 0xE3, CHR 0xE4, CHR 0xE5, CHR 0xE6, CHR 0xE7,
      CHR 0xE8, CHR 0xE9, CHR 0xEA, CHR 0xEB, CHR 0xEC, CHR 0xED, CHR 0xEE, CHR 0xEF,
      CHR 0xF0, CHR 0xF1, CHR 0xF2, CHR 0xF3, CHR 0xF4, CHR 0xF5, CHR 0xF6,
      CHR 0xF8, CHR 0xF9, CHR 0xFA, CHR 0xFB, CHR 0xFC, CHR 0xFD, CHR 0xFE]"

definition toLowerChar :: "char \<Rightarrow> char" where
  "toLowerChar c =
     (case map_of (zip upperLetters lowerLetters) c of
        Some l \<Rightarrow> l
      | None \<Rightarrow> c)"

definition toLowerCase :: "string \<Rightarrow> string" where
  "toLowerCase s = map toLowerChar s"

text \<open>Truthiness of an optional string (\<open>undefined\<close>, \<open>null\<close> and \<open>""\<close> are falsy), and
  \<open>x || d\<close> on it.\<close>

definition truthy :: "string option \<Rightarrow> bool" where
  "truthy x = (case x of None \<Rightarrow> False | Some s \<Rightarrow> s \<noteq> [])"

definition or_else :: "string option \<Rightarrow> string \<Rightarrow> string" where
  "or_else x d = (case x of None \<Rightarrow> d | Some s \<Rightarrow> if s = [] then d else s)"

text \<open>\<open>s.replace('d', '')\<close> removes the first \<open>d\<close> of \<open>s\<close>.\<close>

definition replace_d :: "string \<Rightarrow> string" where
  "replace_d s = takeWhile (\<lambda>c. c \<noteq> CHR ''d'') s @ drop 1 (dropWhile (\<lambda>c. c \<noteq> CHR ''d'') s)"

definition digitVal :: "char \<Rightarrow> nat option" where
  "digitVal c = map_of (zip ''0123456789'' [0, 1, 2, 3, 4, 5, 6, 7, 8, 9]) c"

definition hexVal :: "char \<Rightarrow> nat option" where
  "hexVal c =
     map_of (zip ''0123456789abcdefABCDEF''
       [0, 1, 2, 3, 4, 5, 6, 7, 8, 9, 10, 11, 12, 13, 14, 15, 10, 11, 12, 13, 14, 15]) c"

fun digitsOf :: "(char \<Rightarrow> nat option) \<Rightarrow> string \<Rightarrow> nat list" where
  "digitsOf dv [] = []"
| "digitsOf dv (c # cs) = (case dv c of None \<Rightarrow> [] | Some d \<Rightarrow> d # digitsOf dv cs)"

definition numeral_of :: "nat \<Rightarrow> nat list \<Rightarrow> nat" where
  "numeral_of R ds = foldl (\<lambda>a d. R * a + d) 0 ds"

text \<open>
  \<open>parseInt(s)\<close> with no radix: leading white space is skipped, a sign is read, a
  prefix \<open>0x\<close> or \<open>0X\<close> selects base 16, and the longest run of digits is the value;
  with no digit the result is \<open>NaN\<close>, here \<open>None\<close>. The value is the integer the
  digits denote. The code holds it in a double, which is that integer up to \<open>2^53\<close>;
  the model follows the code on these values, and every statement about \<open>parseInt\<close>
  below is made for them.
\<close>

definition parseInt :: "string \<Rightarrow> int option" where
  "parseInt s =
     (let s1 = dropWhile is_space s;
          neg = (take 1 s1 = ''-'');
          s2 = (if take 1 s1 = ''-'' \<or> take 1 s1 = ''+'' then drop 1 s1 else s1);
          hex = (take 2 s2 = ''0x'' \<or> take 2 s2 = ''0X'');
          ds = (if hex then digitsOf hexVal (drop 2 s2) else digitsOf digitVal s2);
          n = int (numeral_of (if hex then 16 else 10) ds)
      in if ds = [] then None else Some (if neg then - n else n))"

text \<open>The decimal numeral of an integer, as a template literal prints a number that
  is an integer below \<open>10^21\<close> in size.\<close>

definition digitChar :: "nat \<Rightarrow> char" where
  "digitChar d = ''0123456789'' ! d"

fun decimal :: "nat \<Rightarrow> string" where
  "decimal n = (if n < 10 then [digitChar n] else decimal (n div 10) @ [digitChar (n mod 10)])"

declare decimal.simps [simp del]

definition show_int :: "int \<Rightarrow> string" where
  "show_int i = (if i < 0 then CHR ''-'' # decimal (nat (- i)) else decimal (nat i))"

section \<open>Writes to the backend\<close>

text \<open>
  Every write is awaited and may be rejected by the backend; the flag \<open>ok\<close> of a
  write is the backend's answer. A rejected write leaves the backend as it was and
  raises. A batch commits all of its writes or none. Firestore rejects the update of a
  document it does not hold; here that is one of the rejections the flag stands for,
  and an accepted update of a player the list does not hold changes nothing.
\<close>

datatype store_write =
    SetCurrentScene string
  | SetActiveRoll RollRequest
  | DeleteActiveRoll
  | SetGameStatus GameStatus
  | SetChoices string "string list option"
  | SetIsReady string bool

definition update_player :: "string \<Rightarrow> (Player \<Rightarrow> Player) \<Rightarrow> Player list \<Rightarrow> Player list" where
  "update_player pid f ps = map (\<lambda>p. if p_id p = pid then f p else p) ps"

fun apply_write :: "Store \<Rightarrow> store_write \<Rightarrow> Store" where
  "apply_write s (SetCurrentScene sc) = s\<lparr>db_room := (db_room s)\<lparr>r_currentScene := Some sc\<rparr>\<rparr>"
| "apply_write s (SetActiveRoll rr) = s\<lparr>db_room := (db_room s)\<lparr>r_activeRoll := Some rr\<rparr>\<rparr>"
| "apply_write s DeleteActiveRoll = s\<lparr>db_room := (db_room s)\<lparr>r_activeRoll := None\<rparr>\<rparr>"
| "apply_write s (SetGameStatus st) = s\<lparr>db_room := (db_room s)\<lparr>r_gameStatus := st\<rparr>\<rparr>"
| "apply_write s (SetChoices pid cs) =
     s\<lparr>db_players := update_player pid (\<lambda>p. p\<lparr>p_choices := cs\<rparr>) (db_players s)\<rparr>"
| "apply_write s (SetIsReady pid b) =
     s\<lparr>db_players := update_player pid (\<lambda>p. p\<lparr>p_isReady := b\<rparr>) (db_players s)\<rparr>"

definition commit :: "bool \<Rightarrow> store_write list \<Rightarrow> Store \<Rightarrow> error + Store" where
  "commit ok ws s = (if ok then Inr (foldl apply_write s ws) else Inl WriteRejected)"

definition updateDoc :: "bool \<Rightarrow> store_write \<Rightarrow> Store \<Rightarrow> error + Store" where
  "updateDoc ok w s = commit ok [w] s"

definition addDoc :: "bool \<Rightarrow> MessageDoc \<Rightarrow> Store \<Rightarrow> error + Store" where
  "addDoc ok m s = (if ok then Inr (s\<lparr>db_messages := db_messages s @ [m]\<rparr>) else Inl WriteRejected)"

section \<open>Operations of the store\<close>

text \<open>\<open>!room || !playerId\<close>: no room snapshot, or no identity (\<open>null\<close> or the empty
  string).\<close>

definition no_session :: "GameState \<Rightarrow> bool" where
  "no_session g = (room g = None \<or> \<not> truthy (playerId g))"

subsection \<open>sendMessage\<close>

definition sendMessage ::
  "bool \<Rightarrow> bool \<Rightarrow> string \<Rightarrow> bool \<Rightarrow> GameState \<Rightarrow> Store \<Rightarrow> (error + unit) \<times> Store" where
  "sendMessage okAdd okUpd prompt isAction g s =
     (if no_session g \<or> trim prompt = [] then (Inr (), s)
      else
        let me = find (\<lambda>p. Some (p_id p) = playerId g) (players g);
            msg = \<lparr>m_role = User, m_content = prompt,
                   m_senderName = Some (or_else (map_option p_name me) ''Player''),
                   m_isAction = Some isAction\<rparr>
        in case addDoc okAdd msg s of
             Inl e \<Rightarrow> (Inl e, s)
           | Inr s1 \<Rightarrow>
               if isAction then
                 (case playerId g of
                    None \<Rightarrow> (Inr (), s1)
                  | Some pid \<Rightarrow>
                      (case updateDoc okUpd (SetChoices pid None) s1 of
                         Inl e \<Rightarrow> (Inl e, s1)
                       | Inr s2 \<Rightarrow> (Inr (), s2)))
               else (Inr (), s1))"

subsection \<open>performRoll\<close>

text \<open>\<open>parseInt(rollReq.diceType.replace('d', '')) || 20\<close>: \<open>NaN\<close> and \<open>0\<close> are falsy.\<close>

definition faces :: "string \<Rightarrow> int" where
  "faces diceType =
     (case parseInt (replace_d diceType) of
        None \<Rightarrow> 20
      | Some n \<Rightarrow> if n = 0 then 20 else n)"



text \<open>
  \<open>Math.floor(Math.random() * max) + 1\<close>, for the value \<open>u\<close> that \<open>Math.random()\<close>
  returns, a double with \<open>0 \<le> u < 1\<close>. The multiplication of doubles is the parameter
  \<open>fmul\<close>; the floor of a double and the addition of 1 are exact as long as the floor
  is below \<open>2^53\<close> in size.
\<close>

definition rollResult :: "(real \<Rightarrow> real \<Rightarrow> real) \<Rightarrow> real \<Rightarrow> int \<Rightarrow> int" where
  "rollResult fmul u mx = \<lfloor>fmul u (real_of_int mx)\<rfloor> + 1"

definition rollMessage :: "RollRequest \<Rightarrow> int \<Rightarrow> MessageDoc" where
  "rollMessage rollReq result =
     \<lparr>m_role = User,
      m_content = ''[Dice Roll] '' @ rr_reason rollReq @ '': Rolled a '' @ show_int result
                    @ '' ('' @ rr_diceType rollReq @ '')'',
      m_senderName = Some ''System'',
      m_isAction = Some True\<rparr>"

definition performRoll ::
  "bool \<Rightarrow> bool \<Rightarrow> (real \<Rightarrow> real \<Rightarrow> real) \<Rightarrow> real \<Rightarrow> RollRequest \<Rightarrow> GameState \<Rightarrow> Store
     \<Rightarrow> (error + unit) \<times> Store" where
  "performRoll okAdd okUpd fmul u rollReq g s =
     (if no_session g then (Inr (), s)
      else
        let mx = faces (rr_diceType rollReq);
            result = rollResult fmul u mx
        in case addDoc okAdd (rollMessage rollReq result) s of
             Inl e \<Rightarrow> (Inl e, s)
           | Inr s1 \<Rightarrow>
               (case updateDoc okUpd DeleteActiveRoll s1 of
                  Inl e \<Rightarrow> (Inl e, s1)
                | Inr s2 \<Rightarrow> (Inr (), s2)))"

subsection \<open>createCharacter, setReadyState\<close>

text \<open>
  \<open>setDoc\<close> replaces the player's document or creates it. The backend lists the
  collection by document id; \<open>pos\<close> is the place at which a new document appears in
  the list.
\<close>

definition setDoc :: "bool \<Rightarrow> nat \<Rightarrow> Player \<Rightarrow> Store \<Rightarrow> error + Store" where
  "setDoc ok pos p s =
     (if \<not> ok then Inl WriteRejected
      else if p_id p \<in> set (map p_id (db_players s))
        then Inr (s\<lparr>db_players := update_player (p_id p) (\<lambda>_. p) (db_players s)\<rparr>)
        else Inr (s\<lparr>db_players := take pos (db_players s) @ [p] @ drop pos (db_players s)\<rparr>))"

definition joinedMessage :: "string \<Rightarrow> string option \<Rightarrow> MessageDoc" where
  "joinedMessage name cls =
     \<lparr>m_role = System,
      m_content = name @ '' ('' @ (case cls of None \<Rightarrow> ''undefined'' | Some c \<Rightarrow> c) @ '') has joined.'',
      m_senderName = None,
      m_isAction = None\<rparr>"

definition createCharacter ::
  "bool \<Rightarrow> bool \<Rightarrow> nat \<Rightarrow> string \<Rightarrow> string option \<Rightarrow> GameState \<Rightarrow> Store \<Rightarrow> (error + unit) \<times> Store" where
  "createCharacter okSet okAdd pos name cls g s =
     (case playerId g of
        None \<Rightarrow> (Inr (), s)
      | Some pid \<Rightarrow>
          (let known = (find (\<lambda>p. p_id p = pid) (players g) \<noteq> None);
               newPlayer = \<lparr>p_id = pid, p_name = name, p_characterClass = cls,
                              p_isReady = False, p_choices = None\<rparr>
           in if no_session g then (Inr (), s)
              else if 4 \<le> length (players g) \<and> \<not> known then (Inr (), s)
              else
                (case setDoc okSet pos newPlayer s of
                   Inl e \<Rightarrow> (Inl e, s)
                 | Inr s1 \<Rightarrow>
                     (if known then (Inr (), s1)
                      else
                        (case addDoc okAdd (joinedMessage name cls) s1 of
                           Inl e \<Rightarrow> (Inl e, s1)
                         | Inr s2 \<Rightarrow> (Inr (), s2))))))"

definition setReadyState :: "bool \<Rightarrow> bool \<Rightarrow> GameState \<Rightarrow> Store \<Rightarrow> (error + unit) \<times> Store" where
  "setReadyState ok isReady g s =
     (case playerId g of
        None \<Rightarrow> (Inr (), s)
      | Some pid \<Rightarrow>
          if no_session g then (Inr (), s)
          else
            (case updateDoc ok (SetIsReady pid isReady) s of
               Inl e \<Rightarrow> (Inl e, s)
             | Inr s1 \<Rightarrow> (Inr (), s1)))"

section \<open>The orchestration turn: \<open>_triggerGmResponse\<close>\<close>

text \<open>
  The answer of the narration service, after \<open>JSON.parse\<close>, in the shape the system
  prompt fixes. The \<open>choices\<close> object is the list of its entries in the order of
  \<open>Object.keys\<close>; its keys are distinct. A new key is put at the end of the list;
  \<open>Object.keys\<close> lists a key made of digits before the others, which no lookup
  below can tell, since such a key matches no other key without regard to case.
  \<open>JSON.parse\<close> itself is a parameter of the turn: \<open>None\<close> is a \<open>SyntaxError\<close>.
\<close>

record RollRequestRaw =
  targetClassName :: "string option"
  diceType :: "string option"
  reason :: "string option"

record GmResponse =
  narrative :: "string option"
  scene_image_prompt :: "string option"
  roll_request :: "RollRequestRaw option"
  choices :: "(string \<times> string list) list option"

subsection \<open>Response repair: parsing\<close>

text \<open>
  \<open>rawContent.match(/\{[\s\S]*\}/)\<close>: the match starts at the first opening brace
  and, the star being greedy, ends at the last closing brace of the text; there is no
  match when no closing brace follows the first opening brace.
\<close>

definition regexMatch :: "string \<Rightarrow> string option" where
  "regexMatch raw =
     (let fromOpen = dropWhile (\<lambda>c. c \<noteq> CHR ''{'') raw;
          toClose = rev (dropWhile (\<lambda>c. c \<noteq> CHR ''}'') (rev fromOpen))
      in if toClose = [] then None else Some toClose)"

definition parseResponse :: "(string \<Rightarrow> GmResponse option) \<Rightarrow> string \<Rightarrow> error + GmResponse" where
  "parseResponse JSON_parse rawContent =
     (case JSON_parse rawContent of
        Some gmResponse \<Rightarrow> Inr gmResponse
      | None \<Rightarrow>
          (case regexMatch rawContent of
             Some jsonMatch \<Rightarrow>
               (case JSON_parse jsonMatch of
                  Some gmResponse \<Rightarrow> Inr gmResponse
                | None \<Rightarrow> Inl UnrecoverableJson)
           | None \<Rightarrow> Inl NoJsonObject))"

subsection \<open>Response repair: padding the choices\<close>

definition defaults :: "string list" where
  "defaults = [''Observe surroundings'', ''Ready weapon'', ''Discuss with party'', ''Search area'']"

definition nextDefault :: "string list \<Rightarrow> string" where
  "nextDefault currentChoices =
     (case find (\<lambda>d. d \<notin> set currentChoices) defaults of
        Some d \<Rightarrow> d
      | None \<Rightarrow> ''Wait'')"

function padChoices :: "string list \<Rightarrow> string list" where
  "padChoices currentChoices =
     (if length currentChoices < 2
      then padChoices (currentChoices @ [nextDefault currentChoices])
      else currentChoices)"
  by pat_completeness auto
termination
  by (relation "measure (\<lambda>cs. 2 - length cs)") auto

declare padChoices.simps [simp del]

text \<open>
  \<open>gmResponse.choices[choiceKey] = []\<close> creates the key, except for the name
  \<open>__proto__\<close>: that assignment replaces the prototype of the object and creates no
  key, and the list that is then padded is not a value of the map.
\<close>

definition findKey :: "(string \<times> string list) list \<Rightarrow> string \<Rightarrow> string option" where
  "findKey ch cls = find (\<lambda>k. toLowerCase k = toLowerCase cls) (map fst ch)"

definition lookup_choices :: "(string \<times> string list) list \<Rightarrow> string \<Rightarrow> string list" where
  "lookup_choices ch k = (case map_of ch k of None \<Rightarrow> [] | Some cs \<Rightarrow> cs)"

definition set_choices ::
  "(string \<times> string list) list \<Rightarrow> string \<Rightarrow> string list \<Rightarrow> (string \<times> string list) list" where
  "set_choices ch k cs = map (\<lambda>(k', v). if k' = k then (k', cs) else (k', v)) ch"

definition repairPlayer ::
  "(string \<times> string list) list \<Rightarrow> Player \<Rightarrow> (string \<times> string list) list" where
  "repairPlayer ch p =
     (case p_characterClass p of
        None \<Rightarrow> ch
      | Some pClass \<Rightarrow>
          if pClass = [] then ch
          else
            let found = findKey ch pClass;
                choiceKey = (case found of Some k \<Rightarrow> k | None \<Rightarrow> pClass);
                ch1 = (case found of
                         Some k \<Rightarrow> ch
                       | None \<Rightarrow> if pClass = ''__proto__'' then ch else ch @ [(pClass, [])]);
                currentChoices = lookup_choices ch1 choiceKey
            in if length currentChoices < 2
               then set_choices ch1 choiceKey (padChoices currentChoices)
               else ch1)"

definition repair :: "Player list \<Rightarrow> GmResponse \<Rightarrow> GmResponse" where
  "repair ps gmResponse =
     (if roll_request gmResponse = None
      then gmResponse\<lparr>choices :=
             Some (foldl repairPlayer (case choices gmResponse of None \<Rightarrow> [] | Some ch \<Rightarrow> ch) ps)\<rparr>
      else gmResponse)"



subsection \<open>State reconciliation\<close>

definition narrativeMessage :: "string \<Rightarrow> MessageDoc" where
  "narrativeMessage txt =
     \<lparr>m_role = Assistant, m_content = txt, m_senderName = Some ''GM'', m_isAction = None\<rparr>"

definition target_of :: "GmResponse \<Rightarrow> string option" where
  "target_of gmResponse =
     (case roll_request gmResponse of None \<Rightarrow> None | Some rq \<Rightarrow> targetClassName rq)"

definition activeRoll_for :: "Player \<Rightarrow> RollRequestRaw \<Rightarrow> RollRequest" where
  "activeRoll_for targetPlayer rq =
     \<lparr>rr_playerId = p_id targetPlayer,
      rr_playerName = p_name targetPlayer,
      rr_diceType = or_else (diceType rq) ''d20'',
      rr_reason = or_else (reason rq) ''Check''\<rparr>"

definition choicesToUpdate :: "(string \<times> string list) list \<Rightarrow> string \<Rightarrow> string list" where
  "choicesToUpdate ch playerClass =
     (case findKey ch playerClass of
        Some choiceKey \<Rightarrow> lookup_choices ch choiceKey
      | None \<Rightarrow> [''Look around'', ''Wait''])"

definition choiceWrites :: "(string \<times> string list) list \<Rightarrow> Player \<Rightarrow> store_write list" where
  "choiceWrites ch player =
     (case p_characterClass player of
        None \<Rightarrow> []
      | Some playerClass \<Rightarrow>
          if playerClass = [] then []
          else [SetChoices (p_id player) (Some (choicesToUpdate ch playerClass))])"

text \<open>The document of a player after the write that \<open>choiceWrites\<close> makes for the
  player \<open>q\<close>.\<close>

definition withChoices :: "(string \<times> string list) list \<Rightarrow> Player \<Rightarrow> Player \<Rightarrow> Player" where
  "withChoices ch q d =
     (case p_characterClass q of
        None \<Rightarrow> d
      | Some c \<Rightarrow> if c = [] then d else d\<lparr>p_choices := Some (choicesToUpdate ch c)\<rparr>)"

text \<open>The writes put into the batch (\<open>writeBatch\<close>), in the order of the calls of
  \<open>batch.update\<close>.\<close>

definition batchWrites :: "GameRoom \<Rightarrow> Player list \<Rightarrow> GmResponse \<Rightarrow> store_write list" where
  "batchWrites rm ps gmResponse =
     (if truthy (scene_image_prompt gmResponse)
      then [SetCurrentScene (or_else (scene_image_prompt gmResponse) [])] else [])
     @
     (if truthy (target_of gmResponse) then
        (case roll_request gmResponse of
           None \<Rightarrow> []
         | Some rq \<Rightarrow>
             (case find (\<lambda>p. p_characterClass p = targetClassName rq) ps of
                None \<Rightarrow> []
              | Some targetPlayer \<Rightarrow>
                  SetActiveRoll (activeRoll_for targetPlayer rq)
                  # map (\<lambda>p. SetChoices (p_id p) None) ps))
      else
        (case choices gmResponse of
           None \<Rightarrow> []
         | Some ch \<Rightarrow>
             (if r_activeRoll rm \<noteq> None then [DeleteActiveRoll] else [])
             @ concat (map (choiceWrites ch) ps)))"

text \<open>Lines 380 to 427: the narrative is appended by an \<open>addDoc\<close> of its own, then
  the batch is committed. The result is the error raised, if any, and the backend as
  the writes left it.\<close>

definition reconcile ::
  "bool \<Rightarrow> bool \<Rightarrow> GameRoom \<Rightarrow> Player list \<Rightarrow> GmResponse \<Rightarrow> Store \<Rightarrow> error option \<times> Store" where
  "reconcile okNarrative okCommit rm ps gmResponse s =
     (case (if truthy (narrative gmResponse)
            then addDoc okNarrative (narrativeMessage (or_else (narrative gmResponse) [])) s
            else Inr s) of
        Inl e \<Rightarrow> (Some e, s)
      | Inr s1 \<Rightarrow>
          (case commit okCommit (batchWrites rm ps gmResponse) s1 of
             Inl e \<Rightarrow> (Some e, s1)
           | Inr s2 \<Rightarrow> (None, s2)))"

subsection \<open>The whole turn\<close>

text \<open>
  What the outside world does during one turn: \<open>llm\<close> is the text the narration
  service returns (\<open>None\<close>: the request fails), the flags are the backend's answers to
  the narrative write, the batch and the error report of the \<open>catch\<close> block. The
  messages sent to the service do not influence what the model does with the answer
  and are not modelled.
\<close>

record TurnEnv =
  llm :: "string option"
  okNarrative :: bool
  okCommit :: bool
  okReport :: bool

definition errorMessage :: MessageDoc where
  "errorMessage =
     \<lparr>m_role = System,
      m_content = ''(GM Error: The spirits are confused. Please try acting again.)'',
      m_senderName = None,
      m_isAction = None\<rparr>"

text \<open>The \<open>try\<close> block: the error it raises, if any, and the backend it leaves.\<close>

definition tryTurn ::
  "(string \<Rightarrow> GmResponse option) \<Rightarrow> TurnEnv \<Rightarrow> GameRoom \<Rightarrow> Player list \<Rightarrow> Store
     \<Rightarrow> error option \<times> Store" where
  "tryTurn JSON_parse env rm ps s =
     (case llm env of
        None \<Rightarrow> (Some NetworkError, s)
      | Some rawContent \<Rightarrow>
          (case parseResponse JSON_parse rawContent of
             Inl e \<Rightarrow> (Some e, s)
           | Inr gmResponse \<Rightarrow>
               reconcile (okNarrative env) (okCommit env) rm ps (repair ps gmResponse) s))"

text \<open>The whole function: the value is what the caller's promise settles to
  (\<open>Inl\<close>: it rejects), the local state and the backend afterwards.\<close>

definition triggerGmResponse ::
  "(string \<Rightarrow> GmResponse option) \<Rightarrow> TurnEnv \<Rightarrow> GameState \<Rightarrow> Store
     \<Rightarrow> (error + unit) \<times> GameState \<times> Store" where
  "triggerGmResponse JSON_parse env g s =
     (case room g of
        None \<Rightarrow> (Inr (), g, s)
      | Some rm \<Rightarrow>
          (case tryTurn JSON_parse env rm (players g) s of
             (None, s1) \<Rightarrow> (Inr (), g\<lparr>isAiThinking := False\<rparr>, s1)
           | (Some e, s1) \<Rightarrow>
               (case addDoc (okReport env) errorMessage s1 of
                  Inl e' \<Rightarrow> (Inl e', g\<lparr>isAiThinking := False\<rparr>, s1)
                | Inr s2 \<Rightarrow> (Inr (), g\<lparr>isAiThinking := False\<rparr>, s2))))"

definition startGame ::
  "(string \<Rightarrow> GmResponse option) \<Rightarrow> bool \<Rightarrow> TurnEnv \<Rightarrow> GameState \<Rightarrow> Store
     \<Rightarrow> (error + unit) \<times> GameState \<times> Store" where
  "startGame JSON_parse ok env g s =
     (if room g = None then (Inr (), g, s)
      else
        (case updateDoc ok (SetGameStatus Playing) s of
           Inl e \<Rightarrow> (Inl e, g, s)
         | Inr s1 \<Rightarrow>
             (case triggerGmResponse JSON_parse env g s1 of
                (_, g', s2) \<Rightarrow> (Inr (), g', s2))))"

section \<open>The trigger guard of the chat subscription\<close>

text \<open>
  The callback of the chat subscription in \<open>joinRoom\<close> (lines 189 to 204): it stores
  the list and, when the guard holds, records the id of the last message and starts a
  turn on the list. The second component is the list the turn was started with.
\<close>

definition onMessages :: "GameState \<Rightarrow> ChatMessage list \<Rightarrow> GameState \<times> ChatMessage list option" where
  "onMessages g0 msgs =
     (let g = g0\<lparr>chatHistory := msgs\<rparr> in
      if msgs \<noteq> [] \<and> m_role (last msgs) = User \<and> m_isAction (last msgs) = Some True
         \<and> (case room g of
               None \<Rightarrow> False
             | Some rm \<Rightarrow> r_activeRoll rm = None \<and> Some (r_hostId rm) = playerId g)
         \<and> \<not> isAiThinking g
         \<and> Some (m_id (last msgs)) \<noteq> lastHandledMessageId g
      then (g\<lparr>lastHandledMessageId := Some (m_id (last msgs))\<rparr>, Some msgs)
      else (g, None))"

text \<open>\<open>cleanup\<close>, which \<open>joinRoom\<close> and \<open>logout\<close> call, forgets the room, the players
  and the chat. It leaves \<open>lastHandledMessageId\<close> as it is.\<close>

definition cleanup :: "GameState \<Rightarrow> GameState" where
  "cleanup g = g\<lparr>room := None, players := [], chatHistory := []\<rparr>"

text \<open>
  A sequence of callbacks of one process. Between two callbacks every field of the
  local state may have changed (\<open>e\<close> is the state the callback finds), except
  \<open>lastHandledMessageId\<close>, which only the callback writes. The result lists the ids
  of the messages for which a turn was started, in order.
\<close>

fun firedTurns :: "string option \<Rightarrow> (GameState \<times> ChatMessage list) list \<Rightarrow> string list" where
  "firedTurns lh [] = []"
| "firedTurns lh ((e, msgs) # cs) =
     (case onMessages (e\<lparr>lastHandledMessageId := lh\<rparr>) msgs of
        (g', started) \<Rightarrow>
          (case started of None \<Rightarrow> [] | Some ms \<Rightarrow> [m_id (last ms)])
          @ firedTurns (lastHandledMessageId g') cs)"

text \<open>The chat log is append-only: each list a callback sees extends the one before.\<close>

fun appendOnly :: "ChatMessage list list \<Rightarrow> bool" where
  "appendOnly [] = True"
| "appendOnly [l] = True"
| "appendOnly (l # l' # ls) = (prefix l l' \<and> appendOnly (l' # ls))"

section \<open>The room invariant and the sequential runs of a room\<close>

text \<open>\<open>createRoom\<close> writes a room in the lobby, with no active roll and no player.\<close>

definition createRoom :: "string \<Rightarrow> string \<Rightarrow> Store" where
  "createRoom rid host =
     \<lparr>db_room = \<lparr>r_id = rid, r_hostId = host, r_gameStatus = Lobby, r_activeRoll = None,
                  r_currentScene = Some ''ancient mysterious map, parchment, table top view, dnd mood''\<rparr>,
      db_players = [],
      db_messages = []\<rparr>"

definition no_choices :: "Player \<Rightarrow> bool" where
  "no_choices p = (case p_choices p of None \<Rightarrow> True | Some cs \<Rightarrow> cs = [])"

text \<open>Invariant 1 of the data model: an active roll and a non-empty choice list never
  stand together.\<close>

definition roll_excludes_choices :: "Store \<Rightarrow> bool" where
  "roll_excludes_choices s = (r_activeRoll (db_room s) = None \<or> list_all no_choices (db_players s))"

text \<open>The snapshot of a process is current when it shows the room and the players as
  the backend has them.\<close>

definition current :: "GameState \<Rightarrow> Store \<Rightarrow> bool" where
  "current g s = (room g = Some (db_room s) \<and> players g = db_players s)"

text \<open>
  The backends a room reaches when its operations run one after the other and every
  turn is reconciled on a current snapshot. The operations are called by any process,
  with any arguments, and the backend may reject any write.
\<close>

inductive reachable :: "Store \<Rightarrow> bool" where
  r_create: "reachable (createRoom rid host)"
| r_character: "reachable s \<Longrightarrow> reachable (snd (createCharacter okSet okAdd pos name cls g s))"
| r_ready: "reachable s \<Longrightarrow> reachable (snd (setReadyState ok isReady g s))"
| r_send: "reachable s \<Longrightarrow> reachable (snd (sendMessage okAdd okUpd prompt isAction g s))"
| r_roll: "reachable s \<Longrightarrow> reachable (snd (performRoll okAdd okUpd fmul u rollReq g s))"
| r_turn: "reachable s \<Longrightarrow> current g s \<Longrightarrow>
           reachable (snd (snd (triggerGmResponse JSON_parse env g s)))"
| r_start: "reachable s \<Longrightarrow> current g s \<Longrightarrow>
            reachable (snd (snd (startGame JSON_parse ok env g s)))"

section \<open>The fallback of the parser as the specification words it\<close>

text \<open>
  The specification describes the fallback of the parser as the first substring
  bounded by an opening brace and the corresponding closing brace. \<open>closeAt d cs\<close> is
  the text up to the brace that closes nesting depth \<open>d\<close>.
\<close>

fun closeAt :: "nat \<Rightarrow> string \<Rightarrow> string option" where
  "closeAt d [] = None"
| "closeAt d (c # cs) =
     (if c = CHR ''{'' then map_option ((#) c) (closeAt (Suc d) cs)
      else if c = CHR ''}'' then
        (case d of 0 \<Rightarrow> Some [c] | Suc d' \<Rightarrow> map_option ((#) c) (closeAt d' cs))
      else map_option ((#) c) (closeAt d cs))"

definition spec_braceSpan :: "string \<Rightarrow> string option" where
  "spec_braceSpan raw =
     (case dropWhile (\<lambda>c. c \<noteq> CHR ''{'') raw of
        [] \<Rightarrow> None
      | c # cs \<Rightarrow> map_option ((#) c) (closeAt 0 cs))"

definition spec_parseResponse :: "(string \<Rightarrow> GmResponse option) \<Rightarrow> string \<Rightarrow> error + GmResponse" where
  "spec_parseResponse JSON_parse rawContent =
     (case JSON_parse rawContent of
        Some gmResponse \<Rightarrow> Inr gmResponse
      | None \<Rightarrow>
          (case spec_braceSpan rawContent of
             Some braceSpan \<Rightarrow>
               (case JSON_parse braceSpan of
                  Some gmResponse \<Rightarrow> Inr gmResponse
                | None \<Rightarrow> Inl UnrecoverableJson)
           | None \<Rightarrow> Inl NoJsonObject))"

section \<open>Example data\<close>

text \<open>A room in play with two participants, used to evaluate the operations.\<close>

definition exRoom :: GameRoom where
  "exRoom = \<lparr>r_id = ''room1'', r_hostId = ''u1'', r_gameStatus = Playing,
             r_activeRoll = None, r_currentScene = None\<rparr>"

definition exFighter :: Player where
  "exFighter = \<lparr>p_id = ''u1'', p_name = ''Ann'', p_characterClass = Some ''Fighter'',
                p_isReady = True, p_choices = Some [''Attack'', ''Defend'']\<rparr>"

definition exWizard :: Player where
  "exWizard = \<lparr>p_id = ''u2'', p_name = ''Bob'', p_characterClass = Some ''Wizard'',
                p_isReady = True, p_choices = Some [''Cast'', ''Study'']\<rparr>"

definition exStore :: Store where
  "exStore = \<lparr>db_room = exRoom, db_players = [exFighter, exWizard], db_messages = []\<rparr>"

definition exState :: GameState where
  "exState = \<lparr>room = Some exRoom, players = [exFighter, exWizard], chatHistory = [],
              playerId = Some ''u1'', isAiThinking = False, lastHandledMessageId = None\<rparr>"

definition exRoll :: RollRequest where
  "exRoll = \<lparr>rr_playerId = ''u1'', rr_playerName = ''Ann'', rr_diceType = ''d6'', rr_reason = ''Jump''\<rparr>"

text \<open>
  Texts of the narration service and what \<open>JSON.parse\<close> makes of them. \<open>exParse\<close> is
  the table of \<open>JSON.parse\<close> on these texts; on the other texts the examples give it
  (texts with words or a second object around the JSON) \<open>JSON.parse\<close> raises, and the
  table has no entry.
\<close>

definition exNarrativeText :: string where
  \<open>exNarrativeText = ''{"narrative":"x"}''\<close>

definition exNarrative :: GmResponse where
  "exNarrative = \<lparr>narrative = Some ''x'', scene_image_prompt = None, roll_request = None,
                  choices = None\<rparr>"

definition exChoicesText :: string where
  \<open>exChoicesText = ''{"narrative":"x","choices":{"Fighter":["a"]}}''\<close>

definition exChoices :: GmResponse where
  "exChoices = \<lparr>narrative = Some ''x'', scene_image_prompt = None, roll_request = None,
                choices = Some [(''Fighter'', [''a''])]\<rparr>"

definition exRollText :: string where
  \<open>exRollText = ''{"narrative":"y","roll_request":{"targetClassName":"Fighter","reason":"Dodge"}}''\<close>

definition exRollResponse :: GmResponse where
  "exRollResponse =
     \<lparr>narrative = Some ''y'', scene_image_prompt = None,
      roll_request = Some \<lparr>targetClassName = Some ''Fighter'', diceType = None, reason = Some ''Dodge''\<rparr>,
      choices = None\<rparr>"

definition exParse :: "string \<Rightarrow> GmResponse option" where
  "exParse txt =
     (if txt = exNarrativeText then Some exNarrative
      else if txt = exChoicesText then Some exChoices
      else if txt = exRollText then Some exRollResponse
      else None)"

definition exMsg1 :: ChatMessage where
  "exMsg1 = \<lparr>m_role = User, m_content = ''Attack'', m_senderName = Some ''Ann'',
              m_isAction = Some True, m_id = ''m1''\<rparr>"

definition exMsg2 :: ChatMessage where
  "exMsg2 = \<lparr>m_role = User, m_content = ''Cast'', m_senderName = Some ''Bob'',
              m_isAction = Some True, m_id = ''m2''\<rparr>"

text \<open>Four callbacks of the chat subscription: the first list twice, then a second
  message, seen once while a turn is in flight and once after it.\<close>

definition exCallbacks :: "(GameState \<times> ChatMessage list) list" where
  "exCallbacks = [(exState, [exMsg1]), (exState, [exMsg1]),
                  (exState\<lparr>isAiThinking := True\<rparr>, [exMsg1, exMsg2]),
                  (exState, [exMsg1, exMsg2])]"

text \<open>
  The host of two rooms: the process joins the first room, whose log ends with
  \<open>exMsg1\<close>, then a second room, whose log ends with \<open>exMsgB\<close>, then the first room
  again. \<open>joinRoom\<close> calls \<open>cleanup\<close> and subscribes to the log of the room joined.
\<close>

definition exMsgB :: ChatMessage where
  "exMsgB = \<lparr>m_role = User, m_content = ''Run'', m_senderName = Some ''Ann'',
              m_isAction = Some True, m_id = ''b1''\<rparr>"

definition exStateB :: GameState where
  "exStateB = exState\<lparr>room := Some (exRoom\<lparr>r_id := ''room2''\<rparr>), players := [exFighter]\<rparr>"

definition exRejoin :: "(GameState \<times> ChatMessage list) list" where
  "exRejoin = [(exState, [exMsg1]), (exStateB, [exMsgB]), (exState, [exMsg1])]"






text \<open>
  A run of a room: the host creates the room and a Fighter, and starts a turn on the
  snapshot \<open>exHost\<close>, which the service answers with a roll request (\<open>exReached\<close>).
  \<open>exOverlapped\<close> is the backend after a second turn that was started on the same
  snapshot, before the first one was reconciled, and is answered with choices.
\<close>

definition exLobby :: Store where
  "exLobby = createRoom ''room1'' ''u1''"

definition exJoining :: GameState where
  "exJoining = \<lparr>room = Some (db_room exLobby), players = [], chatHistory = [],
                playerId = Some ''u1'', isAiThinking = False, lastHandledMessageId = None\<rparr>"

definition exJoined :: Store where
  "exJoined = snd (createCharacter True True 0 ''Ann'' (Some ''Fighter'') exJoining exLobby)"

definition exHost :: GameState where
  "exHost = exJoining\<lparr>players := db_players exJoined\<rparr>"

definition exAccept :: "string \<Rightarrow> TurnEnv" where
  "exAccept txt = \<lparr>llm = Some txt, okNarrative = True, okCommit = True, okReport = True\<rparr>"

definition exReached :: Store where
  "exReached = snd (snd (triggerGmResponse exParse (exAccept exRollText) exHost exJoined))"

definition exOverlapped :: Store where
  "exOverlapped = snd (snd (triggerGmResponse exParse (exAccept exChoicesText) exHost exReached))"

section \<open>Properties\<close>

subsection \<open>The dice resolver\<close>








































subsection \<open>sendMessage\<close>

lemma trim_empty_iff: "trim s = [] \<longleftrightarrow> (\<forall>c \<in> set s. is_space c)"
proof
  assume "trim s = []"
  then have "\<forall>c \<in> set (dropWhile is_space s). is_space c"
    by (simp add: trim_def)
  then have "dropWhile is_space s = []"
    by (metis hd_dropWhile list.set_sel(1))
  then show "\<forall>c \<in> set s. is_space c" by simp
next
  assume "\<forall>c \<in> set s. is_space c"
  then show "trim s = []" by (auto simp: trim_def dest: set_dropWhileD)
qed

text \<open>
  Claim C9. Without a room snapshot, without an identity, or with a prompt that is
  empty or white space only, \<open>sendMessage\<close> returns without any write: the backend is
  unchanged, whatever the backend would have answered.
\<close>

theorem sendMessage_guard:
  "room g = None \<or> \<not> truthy (playerId g) \<or> (\<forall>c \<in> set prompt. is_space c) \<Longrightarrow>
   sendMessage okAdd okUpd prompt isAction g s = (Inr (), s)"
  by (auto simp: sendMessage_def no_session_def trim_empty_iff)

theorem sendMessage_guard_witness:
  "list_all is_space [CHR '' '', CHR 0xA0, CHR 0x09]
   \<and> sendMessage True True [CHR '' '', CHR 0xA0, CHR 0x09] True exState exStore = (Inr (), exStore)
   \<and> room (exState\<lparr>room := None\<rparr>) = None
   \<and> sendMessage True True ''go'' True (exState\<lparr>room := None\<rparr>) exStore = (Inr (), exStore)
   \<and> \<not> truthy (playerId (exState\<lparr>playerId := None\<rparr>))
   \<and> sendMessage True True ''go'' True (exState\<lparr>playerId := None\<rparr>) exStore = (Inr (), exStore)"
  using sendMessage_guard [of exState "[CHR '' '', CHR 0xA0, CHR 0x09]" True True True exStore]
    sendMessage_guard [of "exState\<lparr>room := None\<rparr>" "''go''" True True True exStore]
    sendMessage_guard [of "exState\<lparr>playerId := None\<rparr>" "''go''" True True True exStore]
  by (simp add: is_space_def truthy_def)



subsection \<open>The trigger guard\<close>

lemma onMessages_fired:
  "onMessages g msgs = (g', Some ms) \<Longrightarrow>
   ms = msgs \<and> msgs \<noteq> [] \<and> Some (m_id (last msgs)) \<noteq> lastHandledMessageId g
   \<and> lastHandledMessageId g' = Some (m_id (last msgs))"
  by (auto simp: onMessages_def Let_def split: if_splits)

lemma onMessages_idle:
  "onMessages g msgs = (g', None) \<Longrightarrow> lastHandledMessageId g' = lastHandledMessageId g"
  by (auto simp: onMessages_def Let_def split: if_splits)

lemma last_id_new:
  assumes "prefix L msgs" and "distinct (map m_id msgs)" and "msgs \<noteq> L" and "m \<in> set (map m_id L)"
  shows "m_id (last msgs) \<noteq> m"
proof -
  obtain ys where ys: "msgs = L @ ys" using assms(1) by (auto simp: prefix_def)
  then have ne: "ys \<noteq> []" using assms(3) by auto
  then have "last msgs = last ys" using ys by simp
  then have "m_id (last msgs) \<in> set (map m_id ys)" using ne by simp
  moreover have "set (map m_id L) \<inter> set (map m_id ys) = {}"
    using assms(2) ys by simp
  ultimately show ?thesis using assms(4) by auto
qed

lemma handled_never_again:
  assumes "appendOnly (L # map snd cs)"
    and "\<forall>msgs \<in> set (map snd cs). distinct (map m_id msgs)"
    and "m \<in> set (map m_id L)"
    and "L \<noteq> [] \<and> m_id (last L) = m \<longrightarrow> lh = Some m"
  shows "m \<notin> set (firedTurns lh cs)"
  using assms
proof (induction cs arbitrary: L lh)
  case Nil
  then show ?case by simp
next
  case (Cons c cs)
  obtain e msgs where c: "c = (e, msgs)" by (cases c)
  obtain g' started where om: "onMessages (e\<lparr>lastHandledMessageId := lh\<rparr>) msgs = (g', started)"
    by (cases "onMessages (e\<lparr>lastHandledMessageId := lh\<rparr>) msgs")
  have pre: "prefix L msgs" and chain: "appendOnly (msgs # map snd cs)"
    using Cons.prems(1) c by simp_all
  have dist: "distinct (map m_id msgs)" using Cons.prems(2) c by simp
  have min: "m \<in> set (map m_id msgs)"
    using Cons.prems(3) pre by (auto simp: prefix_def)
  have same: "m_id (last msgs) = m \<Longrightarrow> msgs = L"
    using last_id_new [OF pre dist _ Cons.prems(3)] by blast
  have Lne: "L \<noteq> []" using Cons.prems(3) by auto
  show ?case
  proof (cases started)
    case None
    then have lh': "lastHandledMessageId g' = lh" using onMessages_idle om by fastforce
    have "msgs \<noteq> [] \<and> m_id (last msgs) = m \<longrightarrow> lh = Some m"
      using same Cons.prems(4) Lne by blast
    then have "m \<notin> set (firedTurns lh cs)"
      using Cons.IH [OF chain _ min] Cons.prems(2) by simp
    then show ?thesis using c om None lh' by simp
  next
    case (Some ms)
    then have f: "ms = msgs" "msgs \<noteq> []" "Some (m_id (last msgs)) \<noteq> lh"
      "lastHandledMessageId g' = Some (m_id (last msgs))"
      using onMessages_fired [of "e\<lparr>lastHandledMessageId := lh\<rparr>" msgs g' ms] om by simp_all
    have ne: "m_id (last msgs) \<noteq> m"
    proof
      assume eq: "m_id (last msgs) = m"
      then have "msgs = L" by (rule same)
      then have "lh = Some m" using Cons.prems(4) eq Lne by blast
      then show False using f(3) eq by simp
    qed
    have "m \<notin> set (firedTurns (Some (m_id (last msgs))) cs)"
      using Cons.IH [OF chain _ min, of "Some (m_id (last msgs))"] Cons.prems(2) ne by simp
    then show ?thesis using c om Some f ne by simp
  qed
qed

lemma appendOnly_tail: "appendOnly (l # ls) \<Longrightarrow> appendOnly ls"
  by (cases ls) simp_all

text \<open>
  Claim C3, as amended. In every sequence of callbacks of the chat subscription in
  which each callback sees a list that extends the list before it and the ids of a
  list are distinct (the callbacks of one subscription to one append-only log), the
  guard starts at most one turn for a message id: the ids for which turns were started
  are pairwise different, whatever the rest of the local state is at each callback and
  whatever id was handled last before the sequence.
\<close>

theorem trigger_at_most_once:
  assumes "appendOnly (map snd cs)"
    and "\<forall>msgs \<in> set (map snd cs). distinct (map m_id msgs)"
  shows "distinct (firedTurns lh cs)"
  using assms
proof (induction cs arbitrary: lh)
  case Nil
  then show ?case by simp
next
  case (Cons c cs)
  obtain e msgs where c: "c = (e, msgs)" by (cases c)
  obtain g' started where om: "onMessages (e\<lparr>lastHandledMessageId := lh\<rparr>) msgs = (g', started)"
    by (cases "onMessages (e\<lparr>lastHandledMessageId := lh\<rparr>) msgs")
  have chain: "appendOnly (msgs # map snd cs)" using Cons.prems(1) c by simp
  then have tl: "appendOnly (map snd cs)" by (rule appendOnly_tail)
  have dtl: "\<forall>msgs \<in> set (map snd cs). distinct (map m_id msgs)" using Cons.prems(2) by simp
  have ih: "distinct (firedTurns lh' cs)" for lh' using Cons.IH [OF tl dtl] .
  show ?case
  proof (cases started)
    case None
    then show ?thesis using c om ih by simp
  next
    case (Some ms)
    then have f: "ms = msgs" "msgs \<noteq> []"
      "lastHandledMessageId g' = Some (m_id (last msgs))"
      using onMessages_fired [of "e\<lparr>lastHandledMessageId := lh\<rparr>" msgs g' ms] om by simp_all
    have "m_id (last msgs) \<in> set (map m_id msgs)" using f(2) by simp
    then have "m_id (last msgs) \<notin> set (firedTurns (Some (m_id (last msgs))) cs)"
      using handled_never_again [OF chain dtl] by blast
    then show ?thesis using c om Some f ih by simp
  qed
qed


theorem trigger_at_most_once_witness:
  "appendOnly (map snd exCallbacks)
   \<and> list_all (\<lambda>msgs. distinct (map m_id msgs)) (map snd exCallbacks)
   \<and> firedTurns None exCallbacks = [''m1'', ''m2'']
   \<and> distinct (firedTurns None exCallbacks)"
proof -
  have a: "appendOnly (map snd exCallbacks)"
    by (simp add: exCallbacks_def)
  have d: "\<forall>msgs \<in> set (map snd exCallbacks). distinct (map m_id msgs)"
    by (simp add: exCallbacks_def exMsg1_def exMsg2_def)
  have f: "firedTurns None exCallbacks = [''m1'', ''m2'']"
    by (simp add: exCallbacks_def onMessages_def exState_def exRoom_def exMsg1_def exMsg2_def)
  show ?thesis
    using trigger_at_most_once [OF a d, of None] a d f by (simp add: list_all_iff)
qed

text \<open>
  The claim as stated speaks of the whole lifetime of a process. The guard remembers
  one id, the one handled last, and \<open>cleanup\<close> does not reset it. A process subscribes
  anew with every \<open>joinRoom\<close>: the host who joins a first room, whose log ends with
  the action \<open>m1\<close>, then a second room, then the first room again while its log still
  ends with \<open>m1\<close>, starts a second turn for \<open>m1\<close>. Each of the three lists is
  append-only by itself; the sequence of the three is not.
\<close>

theorem trigger_at_most_once_counterexample:
  "list_all (\<lambda>msgs. distinct (map m_id msgs)) (map snd exRejoin)
   \<and> \<not> appendOnly (map snd exRejoin)
   \<and> lastHandledMessageId (cleanup (exState\<lparr>lastHandledMessageId := Some ''m1''\<rparr>)) = Some ''m1''
   \<and> firedTurns None exRejoin = [''m1'', ''b1'', ''m1'']
   \<and> \<not> distinct (firedTurns None exRejoin)"
proof -
  have d: "list_all (\<lambda>msgs. distinct (map m_id msgs)) (map snd exRejoin)"
    by (simp add: exRejoin_def)
  have a: "\<not> appendOnly (map snd exRejoin)"
    by (simp add: exRejoin_def exMsg1_def exMsgB_def)
  have c: "lastHandledMessageId (cleanup (exState\<lparr>lastHandledMessageId := Some ''m1''\<rparr>)) = Some ''m1''"
    by (simp add: cleanup_def)
  have f: "firedTurns None exRejoin = [''m1'', ''b1'', ''m1'']"
    by (simp add: exRejoin_def onMessages_def exState_def exStateB_def exRoom_def exMsg1_def exMsgB_def)
  show ?thesis using d a c f by simp
qed

subsection \<open>Response repair: the two parse attempts\<close>

lemma regexMatch_span:
  assumes "raw = pre @ CHR ''{'' # mid @ CHR ''}'' # post"
    and "CHR ''{'' \<notin> set pre" and "CHR ''}'' \<notin> set post"
  shows "regexMatch raw = Some (CHR ''{'' # mid @ [CHR ''}''])"
proof -
  have 1: "dropWhile (\<lambda>c. c \<noteq> CHR ''{'') raw = CHR ''{'' # mid @ CHR ''}'' # post"
    using assms(1,2) by (auto simp: dropWhile_append3)
  have 2: "rev (CHR ''{'' # mid @ CHR ''}'' # post) = rev post @ CHR ''}'' # rev (CHR ''{'' # mid)"
    by simp
  have 3: "dropWhile (\<lambda>c. c \<noteq> CHR ''}'') (rev post @ CHR ''}'' # rev (CHR ''{'' # mid))
           = CHR ''}'' # rev (CHR ''{'' # mid)"
    using assms(3) by (auto simp: dropWhile_append3)
  show ?thesis
    unfolding regexMatch_def Let_def 1 2 3 by simp
qed

lemma regexMatch_Some:
  assumes "regexMatch raw = Some m"
  shows "\<exists>pre mid post. raw = pre @ CHR ''{'' # mid @ CHR ''}'' # post
           \<and> CHR ''{'' \<notin> set pre \<and> CHR ''}'' \<notin> set post"
proof -
  define fromOpen where "fromOpen = dropWhile (\<lambda>c. c \<noteq> CHR ''{'') raw"
  define pre where "pre = takeWhile (\<lambda>c. c \<noteq> CHR ''{'') raw"
  define post' where "post' = takeWhile (\<lambda>c. c \<noteq> CHR ''}'') (rev fromOpen)"
  define rest where "rest = dropWhile (\<lambda>c. c \<noteq> CHR ''}'') (rev fromOpen)"
  have raw: "raw = pre @ fromOpen" by (simp add: pre_def fromOpen_def)
  have pre: "CHR ''{'' \<notin> set pre" unfolding pre_def by (auto dest: set_takeWhileD)
  have post: "CHR ''}'' \<notin> set post'" unfolding post'_def by (auto dest: set_takeWhileD)
  have rne: "rest \<noteq> []"
    using assms by (auto simp: regexMatch_def Let_def rest_def fromOpen_def split: if_splits)
  then obtain x where rest: "rest = CHR ''}'' # x"
    using hd_dropWhile [of "\<lambda>c. c \<noteq> CHR ''}''" "rev fromOpen"]
    by (cases rest) (auto simp: rest_def)
  have "rev fromOpen = post' @ rest" by (simp add: post'_def rest_def)
  then have fo: "fromOpen = rev x @ CHR ''}'' # rev post'"
    using rest by (metis rev_append rev.simps(2) rev_rev_ident append_Cons append_Nil append_assoc)
  have "fromOpen \<noteq> []" using fo by simp
  then have hd: "hd fromOpen = CHR ''{''"
    using hd_dropWhile [of "\<lambda>c. c \<noteq> CHR ''{''" raw] by (simp add: fromOpen_def)
  then obtain mid where mid: "rev x = CHR ''{'' # mid"
    using fo by (cases "rev x") auto
  have "raw = pre @ CHR ''{'' # mid @ CHR ''}'' # rev post'"
    using raw fo mid by simp
  moreover have "CHR ''}'' \<notin> set (rev post')" using post by simp
  ultimately show ?thesis using pre by blast
qed

text \<open>
  Claim C6, as amended. The whole text is parsed first, and its result is taken when
  it parses. Otherwise the span from the first opening brace to the last closing brace
  of the text is parsed (the last one, not the brace that closes the first one), and
  the turn fails with a parse error when that span does not parse, and also when the
  text has no opening brace followed by a closing brace, in which case no second
  attempt is made. A parse error ends the \<open>try\<close> block before any write.
\<close>

theorem response_repair_parse:
  "(JSON_parse raw = Some r \<longrightarrow> parseResponse JSON_parse raw = Inr r)
   \<and> (JSON_parse raw = None \<and> raw = pre @ CHR ''{'' # mid @ CHR ''}'' # post
        \<and> CHR ''{'' \<notin> set pre \<and> CHR ''}'' \<notin> set post \<longrightarrow>
        parseResponse JSON_parse raw =
          (case JSON_parse (CHR ''{'' # mid @ [CHR ''}'']) of
             Some r' \<Rightarrow> Inr r'
           | None \<Rightarrow> Inl UnrecoverableJson))
   \<and> (JSON_parse raw = None
        \<and> (\<forall>pre' mid' post'. raw \<noteq> pre' @ CHR ''{'' # mid' @ CHR ''}'' # post') \<longrightarrow>
        parseResponse JSON_parse raw = Inl NoJsonObject)
   \<and> (llm env = Some raw \<and> parseResponse JSON_parse raw = Inl e \<longrightarrow>
        tryTurn JSON_parse env rm ps s = (Some e, s))"
proof (intro conjI impI)
  assume "JSON_parse raw = Some r"
  then show "parseResponse JSON_parse raw = Inr r" by (simp add: parseResponse_def)
next
  assume a: "JSON_parse raw = None \<and> raw = pre @ CHR ''{'' # mid @ CHR ''}'' # post
        \<and> CHR ''{'' \<notin> set pre \<and> CHR ''}'' \<notin> set post"
  then have "regexMatch raw = Some (CHR ''{'' # mid @ [CHR ''}''])"
    using regexMatch_span by blast
  moreover have "JSON_parse raw = None" using a by blast
  ultimately show "parseResponse JSON_parse raw =
          (case JSON_parse (CHR ''{'' # mid @ [CHR ''}'']) of
             Some r' \<Rightarrow> Inr r'
           | None \<Rightarrow> Inl UnrecoverableJson)"
    by (simp add: parseResponse_def)
next
  assume a: "JSON_parse raw = None
        \<and> (\<forall>pre' mid' post'. raw \<noteq> pre' @ CHR ''{'' # mid' @ CHR ''}'' # post')"
  then have "regexMatch raw = None"
    using regexMatch_Some [of raw] by (cases "regexMatch raw") auto
  then show "parseResponse JSON_parse raw = Inl NoJsonObject"
    using a by (simp add: parseResponse_def)
next
  assume "llm env = Some raw \<and> parseResponse JSON_parse raw = Inl e"
  then show "tryTurn JSON_parse env rm ps s = (Some e, s)"
    by (simp add: tryTurn_def)
qed

theorem response_repair_parse_witness:
  "exParse exNarrativeText = Some exNarrative
   \<and> parseResponse exParse exNarrativeText = Inr exNarrative
   \<and> exParse (''blah '' @ exChoicesText @ '' blah'') = None
   \<and> parseResponse exParse (''blah '' @ exChoicesText @ '' blah'') = Inr exChoices
   \<and> exParse ''no json here'' = None
   \<and> parseResponse exParse ''no json here'' = Inl NoJsonObject
   \<and> tryTurn exParse \<lparr>llm = Some ''no json here'', okNarrative = True, okCommit = True, okReport = True\<rparr>
        exRoom [exFighter, exWizard] exStore = (Some NoJsonObject, exStore)"
proof -
  define env where "env = \<lparr>llm = Some ''no json here'', okNarrative = True, okCommit = True, okReport = True\<rparr>"
  have p1: "exParse exNarrativeText = Some exNarrative" by (simp add: exParse_def)
  have c1: "parseResponse exParse exNarrativeText = Inr exNarrative"
    using response_repair_parse [of exParse exNarrativeText exNarrative] p1 by blast
  have p2: "exParse (''blah '' @ exChoicesText @ '' blah'') = None"
    by (simp add: exParse_def exNarrativeText_def exChoicesText_def exRollText_def)
  obtain mid where mid: "exChoicesText = CHR ''{'' # mid @ [CHR ''}'']"
    by (simp add: exChoicesText_def)
  have d2: "''blah '' @ exChoicesText @ '' blah'' = ''blah '' @ CHR ''{'' # mid @ CHR ''}'' # '' blah''"
    using mid by simp
  have b2: "CHR ''{'' \<notin> set ''blah ''" "CHR ''}'' \<notin> set '' blah''" by simp_all
  have p2': "exParse exChoicesText = Some exChoices"
    by (simp add: exParse_def exNarrativeText_def exChoicesText_def)
  have c2: "parseResponse exParse (''blah '' @ exChoicesText @ '' blah'') = Inr exChoices"
    using response_repair_parse [of exParse "''blah '' @ exChoicesText @ '' blah''" _ "''blah ''" mid "'' blah''"]
      p2 d2 b2 p2' mid by simp
  have p3: "exParse ''no json here'' = None"
    by (simp add: exParse_def exNarrativeText_def exChoicesText_def exRollText_def)
  have n3: "\<forall>pre' mid' post'. ''no json here'' \<noteq> pre' @ CHR ''{'' # mid' @ CHR ''}'' # post'"
  proof (intro allI notI)
    fix pre' mid' post'
    assume "''no json here'' = pre' @ CHR ''{'' # mid' @ CHR ''}'' # post'"
    then have "CHR ''{'' \<in> set ''no json here''" by (metis in_set_conv_decomp)
    then show False by simp
  qed
  have c3: "parseResponse exParse ''no json here'' = Inl NoJsonObject"
    using response_repair_parse [of exParse "''no json here''"] p3 n3 by blast
  have "llm env = Some ''no json here''" by (simp add: env_def)
  then have c4: "tryTurn exParse env exRoom [exFighter, exWizard] exStore = (Some NoJsonObject, exStore)"
    using response_repair_parse [of exParse "''no json here''" _ _ _ _ env NoJsonObject] c3 by blast
  show ?thesis using p1 c1 p2 c2 p3 c3 c4 unfolding env_def by blast
qed

text \<open>
  The claim as stated fails on a text with a second pair of braces after the object:
  the span the code parses runs to the last brace and does not parse, where the span
  up to the corresponding closing brace is the object and parses.
\<close>

theorem response_repair_parse_counterexample:
  "exParse (exNarrativeText @ '' {}'') = None
   \<and> regexMatch (exNarrativeText @ '' {}'') = Some (exNarrativeText @ '' {}'')
   \<and> parseResponse exParse (exNarrativeText @ '' {}'') = Inl UnrecoverableJson
   \<and> spec_braceSpan (exNarrativeText @ '' {}'') = Some exNarrativeText
   \<and> spec_parseResponse exParse (exNarrativeText @ '' {}'') = Inr exNarrative"
proof -
  have p: "exParse (exNarrativeText @ '' {}'') = None"
    by (simp add: exParse_def exNarrativeText_def exChoicesText_def exRollText_def)
  have m: "regexMatch (exNarrativeText @ '' {}'') = Some (exNarrativeText @ '' {}'')"
    by (simp add: regexMatch_def exNarrativeText_def)
  have b: "spec_braceSpan (exNarrativeText @ '' {}'') = Some exNarrativeText"
    by (simp add: spec_braceSpan_def exNarrativeText_def)
  have q: "exParse exNarrativeText = Some exNarrative" by (simp add: exParse_def)
  show ?thesis
    using p m b q by (simp add: parseResponse_def spec_parseResponse_def)
qed

subsection \<open>Response repair: padding the choices\<close>








lemma fst_set_choices: "map fst (set_choices ch k cs) = map fst ch"
  by (induction ch) (auto simp: set_choices_def)






lemma findKey_Some: "findKey ch c = Some k \<Longrightarrow> k \<in> set (map fst ch) \<and> toLowerCase k = toLowerCase c"
  unfolding findKey_def by (auto simp: find_Some_iff)

lemma findKey_None: "findKey ch c = None \<Longrightarrow> c \<notin> set (map fst ch)"
  unfolding findKey_def by (auto simp: find_None_iff)


lemma lookup_append_new:
  "k \<notin> set (map fst ch) \<Longrightarrow> lookup_choices (ch @ [(k, v)]) k' = (if k' = k then v else lookup_choices ch k')"
  by (induction ch) (auto simp: lookup_choices_def)

text \<open>One step of the loop over the players.\<close>

lemma repairPlayer_skip:
  "p_characterClass p = None \<or> p_characterClass p = Some [] \<Longrightarrow> repairPlayer ch p = ch"
  by (auto simp: repairPlayer_def)

lemma repairPlayer_found:
  assumes "p_characterClass p = Some c" "c \<noteq> []" "findKey ch c = Some k"
  shows "repairPlayer ch p =
           (if length (lookup_choices ch k) < 2 then set_choices ch k (padChoices (lookup_choices ch k)) else ch)"
  using assms by (simp add: repairPlayer_def Let_def)

lemma repairPlayer_new:
  assumes "p_characterClass p = Some c" "c \<noteq> []" "findKey ch c = None" "c \<noteq> ''__proto__''"
  shows "repairPlayer ch p = set_choices (ch @ [(c, [])]) c (padChoices [])"
proof -
  have "c \<notin> set (map fst ch)" using assms(3) by (rule findKey_None)
  then have "lookup_choices (ch @ [(c, [])]) c = []" by (simp add: lookup_append_new)
  then show ?thesis using assms by (simp add: repairPlayer_def Let_def)
qed

lemma set_choices_absent: "k \<notin> set (map fst ch) \<Longrightarrow> set_choices ch k cs = ch"
  by (induction ch) (auto simp: set_choices_def)

lemma repairPlayer_proto:
  assumes "p_characterClass p = Some ''__proto__''" "findKey ch ''__proto__'' = None"
  shows "repairPlayer ch p = ch"
proof -
  have "''__proto__'' \<notin> set (map fst ch)" using assms(2) by (rule findKey_None)
  then show ?thesis using assms by (simp add: repairPlayer_def Let_def set_choices_absent)
qed

lemma repairPlayer_cases:
  obtains (skip) "repairPlayer ch p = ch"
  | (pad) k where "k \<in> set (map fst ch)" "length (lookup_choices ch k) < 2"
      "repairPlayer ch p = set_choices ch k (padChoices (lookup_choices ch k))"
  | (new) c where "c \<notin> set (map fst ch)"
      "repairPlayer ch p = set_choices (ch @ [(c, [])]) c (padChoices [])"
proof (cases "p_characterClass p")
  case None
  then show ?thesis using skip repairPlayer_skip by blast
next
  case (Some c)
  show ?thesis
  proof (cases "c = []")
    case True
    then show ?thesis using Some skip repairPlayer_skip by blast
  next
    case ne: False
    show ?thesis
    proof (cases "findKey ch c")
      case None
      show ?thesis
      proof (cases "c = ''__proto__''")
        case True
        then show ?thesis using skip repairPlayer_proto Some None by blast
      next
        case False
        then show ?thesis using new [of c] repairPlayer_new [OF Some ne None] findKey_None None by blast
      qed
    next
      case (Some k)
      then have k: "k \<in> set (map fst ch)" using findKey_Some by blast
      show ?thesis
      proof (cases "length (lookup_choices ch k) < 2")
        case True
        then show ?thesis
          using pad [OF k True] repairPlayer_found [OF \<open>p_characterClass p = Some c\<close> ne Some] by simp
      next
        case False
        then show ?thesis
          using skip repairPlayer_found [OF \<open>p_characterClass p = Some c\<close> ne Some] by simp
      qed
    qed
  qed
qed


lemma repairPlayer_distinct:
  "distinct (map fst ch) \<Longrightarrow> distinct (map fst (repairPlayer ch p))"
  by (cases rule: repairPlayer_cases [of ch p]) (simp_all add: fst_set_choices)








lemma foldl_repair_distinct:
  "distinct (map fst ch) \<Longrightarrow> distinct (map fst (foldl repairPlayer ch ps))"
  by (induction ps arbitrary: ch) (simp_all add: repairPlayer_distinct)

















subsection \<open>State reconciliation: the two branches\<close>

lemmas ex_defs = exStore_def exRoom_def exFighter_def exWizard_def exState_def exRoll_def

lemmas turn_defs = reconcile_def addDoc_def commit_def batchWrites_def choiceWrites_def
  choicesToUpdate_def findKey_def lookup_choices_def toLowerCase_def toLowerChar_def
  upperLetters_def lowerLetters_def
  target_of_def truthy_def or_else_def activeRoll_for_def narrativeMessage_def update_player_def

lemma apply_SetChoices_fields:
  "db_room (apply_write s (SetChoices pid cs)) = db_room s"
  "db_messages (apply_write s (SetChoices pid cs)) = db_messages s"
  "db_players (apply_write s (SetChoices pid cs)) =
     map (\<lambda>d. if p_id d = pid then d\<lparr>p_choices := cs\<rparr> else d) (db_players s)"
  by (simp_all add: update_player_def)

lemma clear_all_fields:
  "db_room (foldl apply_write s (map (\<lambda>p. SetChoices (p_id p) None) qs)) = db_room s
   \<and> db_messages (foldl apply_write s (map (\<lambda>p. SetChoices (p_id p) None) qs)) = db_messages s
   \<and> db_players (foldl apply_write s (map (\<lambda>p. SetChoices (p_id p) None) qs)) =
       map (\<lambda>d. if p_id d \<in> set (map p_id qs) then d\<lparr>p_choices := None\<rparr> else d) (db_players s)"
proof (induction qs arbitrary: s)
  case Nil
  then show ?case by simp
next
  case (Cons q qs)
  show ?case
    unfolding list.map foldl_Cons
    by (simp only: Cons.IH apply_SetChoices_fields) auto
qed


lemma choiceWrites_fields:
  "db_room (foldl apply_write s (choiceWrites ch q)) = db_room s"
  "db_messages (foldl apply_write s (choiceWrites ch q)) = db_messages s"
  "db_players (foldl apply_write s (choiceWrites ch q)) =
     map (\<lambda>d. if p_id d = p_id q then withChoices ch q d else d) (db_players s)"
proof -
  show "db_room (foldl apply_write s (choiceWrites ch q)) = db_room s"
    by (simp add: choiceWrites_def split: option.splits)
  show "db_messages (foldl apply_write s (choiceWrites ch q)) = db_messages s"
    by (simp add: choiceWrites_def split: option.splits)
  show "db_players (foldl apply_write s (choiceWrites ch q)) =
     map (\<lambda>d. if p_id d = p_id q then withChoices ch q d else d) (db_players s)"
  proof (cases "p_characterClass q")
    case None
    then have "withChoices ch q = (\<lambda>d. d)" by (auto simp: withChoices_def)
    then show ?thesis using None by (simp add: choiceWrites_def cong: if_cong)
  next
    case (Some c)
    show ?thesis
    proof (cases "c = []")
      case True
      then have "withChoices ch q = (\<lambda>d. d)" using Some by (auto simp: withChoices_def)
      then show ?thesis using Some True by (simp add: choiceWrites_def cong: if_cong)
    next
      case False
      then have "withChoices ch q = (\<lambda>d. d\<lparr>p_choices := Some (choicesToUpdate ch c)\<rparr>)"
        using Some by (auto simp: withChoices_def)
      then show ?thesis using Some False by (simp add: choiceWrites_def update_player_def cong: if_cong)
    qed
  qed
qed







lemma truthy_Some: "truthy x \<Longrightarrow> \<exists>c. x = Some c \<and> c \<noteq> []"
  by (cases x) (auto simp: truthy_def)

lemma scene_fields:
  "db_players (foldl apply_write s (if truthy sc then [SetCurrentScene (or_else sc [])] else [])) = db_players s"
  "db_messages (foldl apply_write s (if truthy sc then [SetCurrentScene (or_else sc [])] else [])) = db_messages s"
  "r_activeRoll (db_room (foldl apply_write s (if truthy sc then [SetCurrentScene (or_else sc [])] else [])))
     = r_activeRoll (db_room s)"
  by simp_all








subsection \<open>State reconciliation: what is atomic\<close>

lemma apply_write_messages:
  "apply_write (s\<lparr>db_messages := m\<rparr>) w = (apply_write s w)\<lparr>db_messages := m\<rparr>"
  by (cases w) simp_all

lemma foldl_write_messages:
  "foldl apply_write (s\<lparr>db_messages := m\<rparr>) ws = (foldl apply_write s ws)\<lparr>db_messages := m\<rparr>"
  by (induction ws arbitrary: s) (simp_all add: apply_write_messages)







subsection \<open>Errors of a turn\<close>

lemma trigger_flag:
  "room g = Some rm \<Longrightarrow> fst (snd (triggerGmResponse P env g s)) = g\<lparr>isAiThinking := False\<rparr>"
  by (simp add: triggerGmResponse_def split: prod.splits option.splits sum.splits)

lemma trigger_failed:
  assumes "room g = Some rm" and "tryTurn P env rm (players g) s = (Some e, s1)"
  shows "triggerGmResponse P env g s =
           (if okReport env
            then (Inr (), g\<lparr>isAiThinking := False\<rparr>, s1\<lparr>db_messages := db_messages s1 @ [errorMessage]\<rparr>)
            else (Inl WriteRejected, g\<lparr>isAiThinking := False\<rparr>, s1))"
  using assms by (simp add: triggerGmResponse_def addDoc_def)

text \<open>
  Claim C8, as amended. A turn started with a room snapshot ends with the in-flight
  flag cleared, whatever the service and the backend answer. When the request to the
  service fails or its answer does not parse, the error is caught and reported by one
  write: if the backend accepts it, the call returns normally and the backend has
  gained exactly one system message that reports the failure; if the backend rejects
  it, the call rejects with that rejection and the backend is as it was, with no
  message. The same holds for every other error of the \<open>try\<close> block, on the backend
  the block has left. After the turn the guard of the chat subscription starts a turn
  again for a new action message.
\<close>

theorem turn_errors_contained:
  assumes "room g = Some rm"
  shows "isAiThinking (fst (snd (triggerGmResponse P env g s))) = False
       \<and> (llm env = None \<or> (\<exists>raw e. llm env = Some raw \<and> parseResponse P raw = Inl e) \<longrightarrow>
            triggerGmResponse P env g s =
              (if okReport env
               then (Inr (), g\<lparr>isAiThinking := False\<rparr>,
                     s\<lparr>db_messages := db_messages s @
                        [\<lparr>m_role = System,
                          m_content = ''(GM Error: The spirits are confused. Please try acting again.)'',
                          m_senderName = None, m_isAction = None\<rparr>]\<rparr>)
               else (Inl WriteRejected, g\<lparr>isAiThinking := False\<rparr>, s)))
       \<and> (fst (tryTurn P env rm (players g) s) \<noteq> None \<longrightarrow>
            (if okReport env
             then fst (triggerGmResponse P env g s) = Inr ()
                  \<and> snd (snd (triggerGmResponse P env g s)) =
                      (snd (tryTurn P env rm (players g) s))
                        \<lparr>db_messages := db_messages (snd (tryTurn P env rm (players g) s)) @ [errorMessage]\<rparr>
             else fst (triggerGmResponse P env g s) = Inl WriteRejected
                  \<and> snd (snd (triggerGmResponse P env g s)) = snd (tryTurn P env rm (players g) s)))
       \<and> (msgs \<noteq> [] \<and> m_role (last msgs) = User \<and> m_isAction (last msgs) = Some True
            \<and> r_activeRoll rm = None \<and> Some (r_hostId rm) = playerId g
            \<and> Some (m_id (last msgs)) \<noteq> lastHandledMessageId g \<longrightarrow>
            snd (onMessages (fst (snd (triggerGmResponse P env g s))) msgs) = Some msgs)"
proof (intro conjI impI)
  show "isAiThinking (fst (snd (triggerGmResponse P env g s))) = False"
    using trigger_flag [OF assms] by simp
next
  assume a: "llm env = None \<or> (\<exists>raw e. llm env = Some raw \<and> parseResponse P raw = Inl e)"
  then have "\<exists>e. tryTurn P env rm (players g) s = (Some e, s)"
    by (auto simp: tryTurn_def)
  then obtain e where "tryTurn P env rm (players g) s = (Some e, s)" by blast
  then show "triggerGmResponse P env g s =
              (if okReport env
               then (Inr (), g\<lparr>isAiThinking := False\<rparr>,
                     s\<lparr>db_messages := db_messages s @
                        [\<lparr>m_role = System,
                          m_content = ''(GM Error: The spirits are confused. Please try acting again.)'',
                          m_senderName = None, m_isAction = None\<rparr>]\<rparr>)
               else (Inl WriteRejected, g\<lparr>isAiThinking := False\<rparr>, s))"
    using trigger_failed [OF assms] by (simp add: errorMessage_def)
next
  assume a: "fst (tryTurn P env rm (players g) s) \<noteq> None"
  then obtain e s1 where t: "tryTurn P env rm (players g) s = (Some e, s1)"
    by (cases "tryTurn P env rm (players g) s") auto
  show "if okReport env
             then fst (triggerGmResponse P env g s) = Inr ()
                  \<and> snd (snd (triggerGmResponse P env g s)) =
                      (snd (tryTurn P env rm (players g) s))
                        \<lparr>db_messages := db_messages (snd (tryTurn P env rm (players g) s)) @ [errorMessage]\<rparr>
             else fst (triggerGmResponse P env g s) = Inl WriteRejected
                  \<and> snd (snd (triggerGmResponse P env g s)) = snd (tryTurn P env rm (players g) s)"
    using trigger_failed [OF assms t] t by simp
next
  assume "msgs \<noteq> [] \<and> m_role (last msgs) = User \<and> m_isAction (last msgs) = Some True
            \<and> r_activeRoll rm = None \<and> Some (r_hostId rm) = playerId g
            \<and> Some (m_id (last msgs)) \<noteq> lastHandledMessageId g"
  then show "snd (onMessages (fst (snd (triggerGmResponse P env g s))) msgs) = Some msgs"
    unfolding trigger_flag [OF assms] using assms by (simp add: onMessages_def)
qed

theorem turn_errors_contained_witness:
  "room exState = Some exRoom
   \<and> triggerGmResponse exParse \<lparr>llm = None, okNarrative = True, okCommit = True, okReport = True\<rparr>
        (exState\<lparr>isAiThinking := True\<rparr>) exStore =
       (Inr (), exState, exStore\<lparr>db_messages := [errorMessage]\<rparr>)
   \<and> parseResponse exParse ''no json here'' = Inl NoJsonObject
   \<and> triggerGmResponse exParse \<lparr>llm = Some ''no json here'', okNarrative = True, okCommit = True, okReport = True\<rparr>
        (exState\<lparr>isAiThinking := True\<rparr>) exStore =
       (Inr (), exState, exStore\<lparr>db_messages := [errorMessage]\<rparr>)
   \<and> snd (onMessages (fst (snd (triggerGmResponse exParse
          \<lparr>llm = None, okNarrative = True, okCommit = True, okReport = True\<rparr>
          (exState\<lparr>isAiThinking := True\<rparr>) exStore))) [exMsg1]) = Some [exMsg1]
   \<and> triggerGmResponse exParse \<lparr>llm = Some ''no json here'', okNarrative = True, okCommit = True, okReport = False\<rparr>
        (exState\<lparr>isAiThinking := True\<rparr>) exStore =
       (Inl WriteRejected, exState, exStore)"
proof -
  define g where "g = exState\<lparr>isAiThinking := True\<rparr>"
  define env1 where "env1 = \<lparr>llm = None, okNarrative = True, okCommit = True, okReport = True\<rparr>"
  define env2 where "env2 = \<lparr>llm = Some ''no json here'', okNarrative = True, okCommit = True, okReport = True\<rparr>"
  have r: "room g = Some exRoom" by (simp add: g_def exState_def)
  have r0: "room exState = Some exRoom" by (simp add: exState_def)
  have gf: "g\<lparr>isAiThinking := False\<rparr> = exState" by (simp add: g_def exState_def)
  have p: "parseResponse exParse ''no json here'' = Inl NoJsonObject"
    by (simp add: parseResponse_def regexMatch_def exParse_def exNarrativeText_def
        exChoicesText_def exRollText_def)
  define env3 where "env3 = \<lparr>llm = Some ''no json here'', okNarrative = True, okCommit = True, okReport = False\<rparr>"
  have e1: "llm env1 = None \<or> (\<exists>raw e. llm env1 = Some raw \<and> parseResponse exParse raw = Inl e)"
    by (simp add: env1_def)
  have e2: "llm env2 = None \<or> (\<exists>raw e. llm env2 = Some raw \<and> parseResponse exParse raw = Inl e)"
    using p by (simp add: env2_def)
  have e3: "llm env3 = None \<or> (\<exists>raw e. llm env3 = Some raw \<and> parseResponse exParse raw = Inl e)"
    using p by (simp add: env3_def)
  have o: "okReport env1" "okReport env2" "\<not> okReport env3" by (simp_all add: env1_def env2_def env3_def)
  have m: "[exMsg1] \<noteq> [] \<and> m_role (last [exMsg1]) = User \<and> m_isAction (last [exMsg1]) = Some True
            \<and> r_activeRoll exRoom = None \<and> Some (r_hostId exRoom) = playerId g
            \<and> Some (m_id (last [exMsg1])) \<noteq> lastHandledMessageId g"
    by (simp add: exMsg1_def exRoom_def g_def exState_def)
  note t1 = turn_errors_contained [OF r, of exParse env1 exStore "[exMsg1]"]
  note t2 = turn_errors_contained [OF r, of exParse env2 exStore "[exMsg1]"]
  note t3 = turn_errors_contained [OF r, of exParse env3 exStore "[exMsg1]"]
  have a: "triggerGmResponse exParse env1 g exStore =
       (Inr (), exState, exStore\<lparr>db_messages := [errorMessage]\<rparr>)"
  proof -
    have "triggerGmResponse exParse env1 g exStore =
              (if okReport env1
               then (Inr (), g\<lparr>isAiThinking := False\<rparr>,
                     exStore\<lparr>db_messages := db_messages exStore @
                        [\<lparr>m_role = System,
                          m_content = ''(GM Error: The spirits are confused. Please try acting again.)'',
                          m_senderName = None, m_isAction = None\<rparr>]\<rparr>)
               else (Inl WriteRejected, g\<lparr>isAiThinking := False\<rparr>, exStore))"
      using t1 e1 by blast
    then show ?thesis using o by (simp add: gf errorMessage_def exStore_def)
  qed
  have b: "triggerGmResponse exParse env2 g exStore =
       (Inr (), exState, exStore\<lparr>db_messages := [errorMessage]\<rparr>)"
  proof -
    have "triggerGmResponse exParse env2 g exStore =
              (if okReport env2
               then (Inr (), g\<lparr>isAiThinking := False\<rparr>,
                     exStore\<lparr>db_messages := db_messages exStore @
                        [\<lparr>m_role = System,
                          m_content = ''(GM Error: The spirits are confused. Please try acting again.)'',
                          m_senderName = None, m_isAction = None\<rparr>]\<rparr>)
               else (Inl WriteRejected, g\<lparr>isAiThinking := False\<rparr>, exStore))"
      using t2 e2 by blast
    then show ?thesis using o by (simp add: gf errorMessage_def exStore_def)
  qed
  have c: "snd (onMessages (fst (snd (triggerGmResponse exParse env1 g exStore))) [exMsg1]) = Some [exMsg1]"
    using t1 m by blast
  have d: "triggerGmResponse exParse env3 g exStore =
       (Inl WriteRejected, exState, exStore)"
  proof -
    have "triggerGmResponse exParse env3 g exStore =
              (if okReport env3
               then (Inr (), g\<lparr>isAiThinking := False\<rparr>,
                     exStore\<lparr>db_messages := db_messages exStore @
                        [\<lparr>m_role = System,
                          m_content = ''(GM Error: The spirits are confused. Please try acting again.)'',
                          m_senderName = None, m_isAction = None\<rparr>]\<rparr>)
               else (Inl WriteRejected, g\<lparr>isAiThinking := False\<rparr>, exStore))"
      using t3 e3 by blast
    then show ?thesis using o by (simp add: gf errorMessage_def exStore_def)
  qed
  show ?thesis using r0 a p b c d unfolding g_def env1_def env2_def env3_def by blast
qed

text \<open>
  The claim as stated has every failed turn caught and reported by a visible message.
  The report is itself a write that the function awaits inside the \<open>catch\<close> block:
  when the backend rejects it (the request to the service failed and so does the
  write), the call rejects and no message is appended. The flag is cleared all the
  same.
\<close>

theorem turn_errors_contained_counterexample:
  "room (exState\<lparr>isAiThinking := True\<rparr>) = Some exRoom
   \<and> triggerGmResponse exParse \<lparr>llm = None, okNarrative = True, okCommit = True, okReport = False\<rparr>
        (exState\<lparr>isAiThinking := True\<rparr>) exStore =
       (Inl WriteRejected, exState, exStore)
   \<and> db_messages exStore = []"
  by (simp add: triggerGmResponse_def tryTurn_def addDoc_def exState_def exStore_def)


subsection \<open>Active roll and choices\<close>

lemma inv_messages [simp]: "roll_excludes_choices (s\<lparr>db_messages := m\<rparr>) = roll_excludes_choices s"
  by (simp add: roll_excludes_choices_def)

lemma inv_addDoc: "addDoc ok m s = Inr s1 \<Longrightarrow> roll_excludes_choices s1 = roll_excludes_choices s"
  by (auto simp: addDoc_def split: if_splits)

lemma choices_room:
  "db_room (foldl apply_write s (concat (map (choiceWrites ch) qs))) = db_room s"
  by (induction qs arbitrary: s) (simp_all add: choiceWrites_fields)

lemma batch_inv:
  assumes "r_activeRoll (db_room s) \<noteq> None \<longrightarrow> r_activeRoll rm \<noteq> None"
    and "set (map p_id (db_players s)) \<subseteq> set (map p_id ps)"
    and "roll_excludes_choices s"
  shows "roll_excludes_choices (foldl apply_write s (batchWrites rm ps r))"
proof -
  define s0 where "s0 = foldl apply_write s
      (if truthy (scene_image_prompt r) then [SetCurrentScene (or_else (scene_image_prompt r) [])] else [])"
  have s0: "db_players s0 = db_players s" "r_activeRoll (db_room s0) = r_activeRoll (db_room s)"
    by (simp_all add: s0_def)
  have inv0: "roll_excludes_choices s0" using assms(3) s0 by (simp add: roll_excludes_choices_def)
  show ?thesis
  proof (cases "truthy (target_of r)")
    case True
    then obtain rq where rq: "roll_request r = Some rq"
      by (cases "roll_request r") (auto simp: target_of_def truthy_def)
    show ?thesis
    proof (cases "find (\<lambda>p. p_characterClass p = targetClassName rq) ps")
      case None
      then have "foldl apply_write s (batchWrites rm ps r) = s0"
        using True rq by (simp add: batchWrites_def s0_def)
      then show ?thesis using inv0 by simp
    next
      case (Some tp)
      define s1 where "s1 = apply_write s0 (SetActiveRoll (activeRoll_for tp rq))"
      have b: "foldl apply_write s (batchWrites rm ps r) =
          foldl apply_write s1 (map (\<lambda>p. SetChoices (p_id p) None) ps)"
        using True rq Some by (simp add: batchWrites_def s0_def s1_def)
      have p1: "db_players s1 = db_players s" by (simp add: s1_def s0)
      have "db_players (foldl apply_write s1 (map (\<lambda>p. SetChoices (p_id p) None) ps))
            = map (\<lambda>d. d\<lparr>p_choices := None\<rparr>) (db_players s)"
        using clear_all_fields [of s1 ps] p1 assms(2) by (auto intro: map_cong)
      then have "list_all no_choices (db_players (foldl apply_write s (batchWrites rm ps r)))"
        unfolding b by (simp add: list_all_iff no_choices_def)
      then show ?thesis by (simp add: roll_excludes_choices_def)
    qed
  next
    case False
    show ?thesis
    proof (cases "choices r")
      case None
      then have "foldl apply_write s (batchWrites rm ps r) = s0"
        using False by (simp add: batchWrites_def s0_def)
      then show ?thesis using inv0 by simp
    next
      case (Some ch)
      define s1 where "s1 = foldl apply_write s0 (if r_activeRoll rm \<noteq> None then [DeleteActiveRoll] else [])"
      have b: "foldl apply_write s (batchWrites rm ps r) =
          foldl apply_write s1 (concat (map (choiceWrites ch) ps))"
        using False Some by (simp add: batchWrites_def s0_def s1_def)
      have "r_activeRoll (db_room s1) = None"
        using assms(1) s0(2) by (auto simp: s1_def)
      then have "r_activeRoll (db_room (foldl apply_write s (batchWrites rm ps r))) = None"
        unfolding b by (simp add: choices_room)
      then show ?thesis by (simp add: roll_excludes_choices_def)
    qed
  qed
qed

lemma reconcile_inv:
  assumes "r_activeRoll (db_room s) \<noteq> None \<longrightarrow> r_activeRoll rm \<noteq> None"
    and "set (map p_id (db_players s)) \<subseteq> set (map p_id ps)"
    and "roll_excludes_choices s"
  shows "roll_excludes_choices (snd (reconcile okN okC rm ps r s))"
  using assms batch_inv [OF assms, of r]
  by (auto simp: reconcile_def addDoc_def commit_def foldl_write_messages split: if_splits)

lemma tryTurn_inv:
  assumes "r_activeRoll (db_room s) \<noteq> None \<longrightarrow> r_activeRoll rm \<noteq> None"
    and "set (map p_id (db_players s)) \<subseteq> set (map p_id ps)"
    and "roll_excludes_choices s"
  shows "roll_excludes_choices (snd (tryTurn P env rm ps s))"
  using assms reconcile_inv [OF assms]
  by (auto simp: tryTurn_def split: option.splits sum.splits)

lemma trigger_inv:
  assumes "\<And>rm. room g = Some rm \<Longrightarrow> r_activeRoll (db_room s) \<noteq> None \<longrightarrow> r_activeRoll rm \<noteq> None"
    and "set (map p_id (db_players s)) \<subseteq> set (map p_id (players g))"
    and "roll_excludes_choices s"
  shows "roll_excludes_choices (snd (snd (triggerGmResponse P env g s)))"
proof (cases "room g")
  case None
  then show ?thesis using assms(3) by (simp add: triggerGmResponse_def)
next
  case (Some rm')
  obtain e s1 where t: "tryTurn P env rm' (players g) s = (e, s1)"
    by (cases "tryTurn P env rm' (players g) s")
  have "roll_excludes_choices (snd (tryTurn P env rm' (players g) s))"
    using tryTurn_inv [of s rm' "players g" P env] assms(1) [OF Some] assms(2,3) by blast
  then have "roll_excludes_choices s1" using t by simp
  then show ?thesis
    using Some t by (auto simp: triggerGmResponse_def addDoc_def split: option.splits if_splits)
qed

lemma update_player_inv:
  assumes "\<And>d. no_choices d \<Longrightarrow> no_choices (f d)"
  shows "list_all no_choices ps \<Longrightarrow> list_all no_choices (update_player pid f ps)"
  using assms by (auto simp: update_player_def list_all_iff)

lemma send_inv: "roll_excludes_choices s \<Longrightarrow> roll_excludes_choices (snd (sendMessage okAdd okUpd prompt isAction g s))"
  by (auto simp: sendMessage_def addDoc_def updateDoc_def commit_def roll_excludes_choices_def Let_def
      no_choices_def intro!: update_player_inv split: option.splits)

lemma ready_inv: "roll_excludes_choices s \<Longrightarrow> roll_excludes_choices (snd (setReadyState ok isReady g s))"
  by (auto simp: setReadyState_def updateDoc_def commit_def roll_excludes_choices_def
      no_choices_def intro!: update_player_inv split: option.splits)

lemma roll_inv: "roll_excludes_choices (snd (performRoll okAdd okUpd fmul u rollReq g s)) \<or> \<not> roll_excludes_choices s"
  by (auto simp: performRoll_def addDoc_def updateDoc_def commit_def roll_excludes_choices_def Let_def)

lemma set_insert_at: "set (take n xs @ [p] @ drop n xs) = insert p (set xs)"
proof -
  have "set (take n xs) \<union> set (drop n xs) = set xs"
    by (metis append_take_drop_id set_append)
  then show ?thesis by auto
qed

lemma list_all_insert_at:
  "list_all P xs \<Longrightarrow> P p \<Longrightarrow> list_all P (take n xs @ [p] @ drop n xs)"
  unfolding list_all_iff set_insert_at by simp

lemma character_inv:
  "roll_excludes_choices s \<Longrightarrow> roll_excludes_choices (snd (createCharacter okSet okAdd pos name cls g s))"
proof -
  assume inv: "roll_excludes_choices s"
  have set: "setDoc ok pos p s = Inr s1 \<Longrightarrow> no_choices p \<Longrightarrow> roll_excludes_choices s1" for ok p s1
  proof -
    assume a: "setDoc ok pos p s = Inr s1" "no_choices p"
    have "list_all no_choices (db_players s) \<Longrightarrow> list_all no_choices (db_players s1)"
      using a list_all_insert_at [of no_choices "db_players s" p pos]
      by (auto simp: setDoc_def update_player_def list_all_iff split: if_splits)
    moreover have "db_room s1 = db_room s" using a by (auto simp: setDoc_def split: if_splits)
    ultimately show ?thesis using inv by (auto simp: roll_excludes_choices_def)
  qed
  show ?thesis
    using inv set
    by (auto simp: createCharacter_def Let_def addDoc_def no_choices_def
        split: option.splits sum.splits if_splits)
qed

lemma start_inv:
  assumes "current g s" "roll_excludes_choices s"
  shows "roll_excludes_choices (snd (snd (startGame P ok env g s)))"
proof (cases "room g = None \<or> \<not> ok")
  case True
  then show ?thesis using assms(2) by (auto simp: startGame_def updateDoc_def commit_def)
next
  case False
  define s1 where "s1 = apply_write s (SetGameStatus Playing)"
  have 1: "roll_excludes_choices s1" using assms(2) by (simp add: s1_def roll_excludes_choices_def)
  have 2: "room g = Some rm \<Longrightarrow> r_activeRoll (db_room s1) \<noteq> None \<longrightarrow> r_activeRoll rm \<noteq> None" for rm
    using assms(1) by (auto simp: current_def s1_def)
  have 3: "set (map p_id (db_players s1)) \<subseteq> set (map p_id (players g))"
    using assms(1) by (simp add: current_def s1_def)
  have "roll_excludes_choices (snd (snd (triggerGmResponse P env g s1)))"
    using trigger_inv [of g s1 P env] 1 2 3 by blast
  then show ?thesis
    using False by (auto simp: startGame_def updateDoc_def commit_def s1_def split: prod.splits)
qed

lemma reachable_inv: "reachable s \<Longrightarrow> roll_excludes_choices s"
proof (induction rule: reachable.induct)
  case (r_create rid host)
  then show ?case by (simp add: createRoom_def roll_excludes_choices_def)
next
  case (r_character s okSet okAdd pos name cls g)
  then show ?case by (simp add: character_inv)
next
  case (r_ready s ok isReady g)
  then show ?case by (simp add: ready_inv)
next
  case (r_send s okAdd okUpd prompt isAction g)
  then show ?case by (simp add: send_inv)
next
  case (r_roll s okAdd okUpd fmul u rollReq g)
  then show ?case using roll_inv by blast
next
  case (r_turn s g JSON_parse env)
  then show ?case using trigger_inv [of g s JSON_parse env] by (auto simp: current_def)
next
  case (r_start s g JSON_parse ok env)
  then show ?case by (simp add: start_inv)
qed


lemma exJoined_eval:
  "exJoined = \<lparr>db_room = db_room exLobby,
      db_players = [\<lparr>p_id = ''u1'', p_name = ''Ann'', p_characterClass = Some ''Fighter'',
                     p_isReady = False, p_choices = None\<rparr>],
      db_messages = [joinedMessage ''Ann'' (Some ''Fighter'')]\<rparr>"
  by (simp add: exJoined_def exJoining_def exLobby_def createRoom_def createCharacter_def
      no_session_def truthy_def setDoc_def addDoc_def Let_def)

lemma exHost_current: "current exHost exJoined"
  by (simp add: current_def exHost_def exJoining_def exJoined_eval)

lemma exReached_reachable: "reachable exReached"
  unfolding exReached_def
proof (rule r_turn)
  show "reachable exJoined"
    unfolding exJoined_def exLobby_def by (rule r_character) (rule r_create)
  show "current exHost exJoined" by (rule exHost_current)
qed

lemma exParse_roll: "exParse exRollText = Some exRollResponse"
  by (simp add: exParse_def exNarrativeText_def exChoicesText_def exRollText_def)

lemma exParse_choices: "exParse exChoicesText = Some exChoices"
  by (simp add: exParse_def exNarrativeText_def exChoicesText_def)

lemma exReached_eval:
  "exReached = \<lparr>db_room = (db_room exLobby)\<lparr>r_activeRoll := Some
          \<lparr>rr_playerId = ''u1'', rr_playerName = ''Ann'', rr_diceType = ''d20'', rr_reason = ''Dodge''\<rparr>\<rparr>,
      db_players = [\<lparr>p_id = ''u1'', p_name = ''Ann'', p_characterClass = Some ''Fighter'',
                     p_isReady = False, p_choices = None\<rparr>],
      db_messages = [joinedMessage ''Ann'' (Some ''Fighter''), narrativeMessage ''y'']\<rparr>"
  by (simp add: exReached_def triggerGmResponse_def tryTurn_def parseResponse_def exParse_roll
      exAccept_def exHost_def exJoining_def exJoined_eval exLobby_def createRoom_def
      exRollResponse_def repair_def turn_defs)

text \<open>
  Claim C4, as amended. In every backend reached by operations that run one after the
  other, each turn being reconciled on a current snapshot, an active roll implies that
  no participant has choices. Every batch that sets an active roll clears the choices
  of all participants of the snapshot in the same batch, and \<open>performRoll\<close> never
  writes choices.
\<close>

theorem roll_excludes_choices_invariant:
  "(reachable s \<longrightarrow> roll_excludes_choices s)
   \<and> (SetActiveRoll rr \<in> set (batchWrites rm ps r) \<longrightarrow>
        (\<forall>p \<in> set ps. SetChoices (p_id p) None \<in> set (batchWrites rm ps r)))
   \<and> db_players (snd (performRoll okAdd okUpd fmul u rollReq g s')) = db_players s'"
proof (intro conjI impI)
  assume "reachable s"
  then show "roll_excludes_choices s" by (rule reachable_inv)
next
  assume "SetActiveRoll rr \<in> set (batchWrites rm ps r)"
  then show "\<forall>p \<in> set ps. SetChoices (p_id p) None \<in> set (batchWrites rm ps r)"
    by (auto simp: batchWrites_def choiceWrites_def split: if_splits option.splits)
next
  show "db_players (snd (performRoll okAdd okUpd fmul u rollReq g s')) = db_players s'"
    by (auto simp: performRoll_def addDoc_def updateDoc_def commit_def Let_def)
qed

theorem roll_excludes_choices_invariant_witness:
  "reachable exReached
   \<and> r_activeRoll (db_room exReached) =
       Some \<lparr>rr_playerId = ''u1'', rr_playerName = ''Ann'', rr_diceType = ''d20'', rr_reason = ''Dodge''\<rparr>
   \<and> map p_choices (db_players exReached) = [None]
   \<and> roll_excludes_choices exReached
   \<and> SetActiveRoll \<lparr>rr_playerId = ''u1'', rr_playerName = ''Ann'', rr_diceType = ''d20'', rr_reason = ''Dodge''\<rparr>
        \<in> set (batchWrites exRoom [exFighter, exWizard] exRollResponse)
   \<and> SetChoices ''u2'' None \<in> set (batchWrites exRoom [exFighter, exWizard] exRollResponse)"
proof -
  note t = roll_excludes_choices_invariant [of exReached
      "\<lparr>rr_playerId = ''u1'', rr_playerName = ''Ann'', rr_diceType = ''d20'', rr_reason = ''Dodge''\<rparr>"
      exRoom "[exFighter, exWizard]" exRollResponse]
  have w: "SetActiveRoll \<lparr>rr_playerId = ''u1'', rr_playerName = ''Ann'', rr_diceType = ''d20'', rr_reason = ''Dodge''\<rparr>
        \<in> set (batchWrites exRoom [exFighter, exWizard] exRollResponse)"
    by (simp add: ex_defs exRollResponse_def turn_defs)
  have i: "roll_excludes_choices exReached" using t exReached_reachable by blast
  have c: "SetChoices ''u2'' None \<in> set (batchWrites exRoom [exFighter, exWizard] exRollResponse)"
    using t w by (simp add: exWizard_def)
  show ?thesis using exReached_reachable i w c by (simp add: exReached_eval)
qed

text \<open>
  The claim as stated speaks of every reachable state. A turn reads its snapshot when
  it starts and writes after the service has answered; two turns started on the same
  snapshot (the start of the game has no guard against a turn in flight, and a second
  process of the host keeps a guard of its own) can be reconciled one after the other. When the first sets a roll and the second carries
  choices, the second finds no roll in its snapshot to clear: the backend ends with
  an active roll and a participant with choices.
\<close>

theorem roll_excludes_choices_invariant_counterexample:
  "reachable exReached
   \<and> current exHost exJoined
   \<and> r_activeRoll (db_room exOverlapped) =
       Some \<lparr>rr_playerId = ''u1'', rr_playerName = ''Ann'', rr_diceType = ''d20'', rr_reason = ''Dodge''\<rparr>
   \<and> map p_choices (db_players exOverlapped) = [Some [''a'', ''Observe surroundings'']]
   \<and> \<not> roll_excludes_choices exOverlapped"
proof -
  have pc: "padChoices [''a''] = [''a'', ''Observe surroundings'']"
    by (simp add: padChoices.simps nextDefault_def defaults_def)
  have e: "exOverlapped = \<lparr>db_room = (db_room exLobby)\<lparr>r_activeRoll := Some
          \<lparr>rr_playerId = ''u1'', rr_playerName = ''Ann'', rr_diceType = ''d20'', rr_reason = ''Dodge''\<rparr>\<rparr>,
      db_players = [\<lparr>p_id = ''u1'', p_name = ''Ann'', p_characterClass = Some ''Fighter'',
                     p_isReady = False, p_choices = Some [''a'', ''Observe surroundings'']\<rparr>],
      db_messages = [joinedMessage ''Ann'' (Some ''Fighter''), narrativeMessage ''y'',
                     narrativeMessage ''x'']\<rparr>"
    by (simp add: exOverlapped_def triggerGmResponse_def tryTurn_def parseResponse_def exParse_choices
      exAccept_def exHost_def exJoining_def exJoined_eval exReached_eval exLobby_def createRoom_def
      exChoices_def repair_def repairPlayer_def set_choices_def pc Let_def turn_defs)
  show ?thesis
    using exReached_reachable exHost_current
    by (simp add: e roll_excludes_choices_def no_choices_def)
qed

end
